theory Spec2Isabelle
  imports Main "HOL-Library.AList" "HOL-Library.Word"
begin

section \<open>JavaScript values\<close>

text \<open>
  A JavaScript string is a sequence of UTF-16 code units. \<open>String.prototype.trim\<close>
  strips the code units of WhiteSpace and LineTerminator from both ends.
\<close>

type_synonym jsstring = "16 word list"

definition js :: "string \<Rightarrow> jsstring" where
  "js s = map (\<lambda>c. of_nat (of_char c)) s"

definition is_space :: "16 word \<Rightarrow> bool" where
  "is_space u = (u \<in> set [0x9, 0xA, 0xB, 0xC, 0xD, 0x20, 0xA0, 0x1680,
     0x2000, 0x2001, 0x2002, 0x2003, 0x2004, 0x2005, 0x2006, 0x2007, 0x2008, 0x2009, 0x200A,
     0x2028, 0x2029, 0x202F, 0x205F, 0x3000, 0xFEFF])"

definition trim :: "jsstring \<Rightarrow> jsstring" where
  "trim s = rev (dropWhile is_space (rev (dropWhile is_space s)))"

text \<open>
  The fields of a decoded inbound payload hold any JSON value. \<open>JUndefined\<close> is an
  absent field. A number is kept as an integer: no JSON text decodes to NaN, and the
  code only tests numbers with \<open>!!\<close>, \<open>||\<close> and \<open>===\<close>. \<open>JObj r p\<close> is an
  object or array with reference \<open>r\<close>; \<open>===\<close> on objects compares references.
  With these conventions \<open>===\<close> is equality of \<open>jsval\<close>. The flag \<open>p\<close> tells
  whether the conversion of the object to a string returns: a decoded payload holds no
  function, so the conversion of an object with a key \<open>toString\<close> of its own, or of
  an array with such an element, finds nothing to call and throws a TypeError.
\<close>

datatype jsval = JUndefined | JNull | JBool bool | JNum int | JStr jsstring | JObj nat bool

fun truthy :: "jsval \<Rightarrow> bool" where
  "truthy JUndefined = False"
| "truthy JNull = False"
| "truthy (JBool b) = b"
| "truthy (JNum n) = (n \<noteq> 0)"
| "truthy (JStr s) = (s \<noteq> [])"
| "truthy (JObj r p) = True"

text \<open>\<open>a || b\<close>\<close>

definition js_or :: "jsval \<Rightarrow> jsval \<Rightarrow> jsval" where
  "js_or a b = (if truthy a then a else b)"

text \<open>A field that is \<open>null\<close> or a string, read as a value.\<close>

fun nullable :: "jsstring option \<Rightarrow> jsval" where
  "nullable None = JNull"
| "nullable (Some i) = JStr i"

text \<open>
  A template literal converts each value it interpolates to a string; \<open>printable v\<close>
  holds when the conversion of \<open>v\<close> returns.
\<close>

fun printable :: "jsval \<Rightarrow> bool" where
  "printable (JObj r p) = p"
| "printable v = True"

datatype js_error = TypeError

section \<open>Data model of server.js\<close>

text \<open>The string constants of the source (lines 18, 20, 43, 44, 198, 105).\<close>

definition public_room_name :: jsstring where
  "public_room_name = [0x516C, 0x5171, 0x804A, 0x5929, 0x5BA4]"

definition system_name :: jsstring where
  "system_name = [0x7CFB, 0x7EDF]"

definition anonymous_name :: jsstring where
  "anonymous_name = [0x533F, 0x540D, 0x7528, 0x6237]"

definition default_avatar :: jsstring where
  "default_avatar = js ''https://cdn-icons-png.flaticon.com/512/681/681494.png''"

definition unnamed_room :: jsstring where
  "unnamed_room = [0x672A, 0x547D, 0x540D, 0x804A, 0x5929, 0x5BA4]"

definition unknown_name :: jsstring where
  "unknown_name = [0x672A, 0x77E5]"

text \<open>
  A connection handler closes over one \<open>client\<close> object (lines 40-47). The object is
  shared between the handler and the \<open>clients\<close> Map, and its \<open>id\<close> is assigned
  to (line 126), so objects live in a store addressed by \<open>handle\<close> and the Map holds
  handles. \<open>readyState\<close> is the state of the object's socket \<open>ws\<close>.
\<close>

type_synonym handle = nat

datatype ready_state = CONNECTING | OPEN | CLOSING | CLOSED

record client =
  id_c :: jsstring
  readyState :: ready_state
  name_c :: jsval
  avatar_c :: jsval
  currentRoom :: "jsstring option"
  isVerified :: bool

text \<open>The \<open>sender\<close> object of a message: id, name, avatar, isCreator.\<close>

datatype sender = Sender jsstring jsval jsval bool

record message =
  id_m :: jsval
  content :: jsval
  isImage :: bool
  sender_m :: sender
  timestamp :: int

text \<open>
  A room object (lines 16-25, 196-205). Every room is stored in \<open>rooms\<close> under its own
  \<open>id\<close> (lines 26, 207) and \<open>id\<close> is never assigned to, so the key of the entry is the
  room's \<open>id\<close> and the record leaves the field out. \<open>users\<close> is a JavaScript Set: a
  list without repetition in insertion order.
\<close>

record room =
  name_r :: jsval
  creatorId :: "jsstring option"
  creatorName :: jsval
  isPrivate :: bool
  password :: jsval
  users :: "jsstring list"
  history :: "message list"

definition set_add :: "'a \<Rightarrow> 'a list \<Rightarrow> 'a list" where
  "set_add x xs = (if x \<in> set xs then xs else xs @ [x])"

definition set_delete :: "'a \<Rightarrow> 'a list \<Rightarrow> 'a list" where
  "set_delete x xs = removeAll x xs"

text \<open>Outbound events. An entry of a room list: id, name, creatorId, creatorName
  (\<open>JUndefined\<close> where the list has no such field), isPrivate, userCount.\<close>

datatype summary = Summary jsstring jsval "jsstring option" jsval bool nat

datatype error_code =
  unverified_user | room_not_found | not_creator | cannot_delete_default
  | wrong_password | empty_name

text \<open>
  The \<open>error\<close> event carries its \<open>code\<close>; the \<open>message\<close> text beside it is a
  constant of the place that sends it and is left out, as is the constant \<open>reason\<close> of
  \<open>force-leave-room\<close>.
\<close>

datatype out_event =
  Init "summary list" nat
  | Error error_code
  | UserJoined jsstring jsval jsval nat
  | UserLeft jsstring jsval jsval nat
  | RoomJoined jsstring jsval "jsstring option" jsval bool nat "message list"
  | RoomList "summary list"
  | RoomUserCount jsstring nat
  | OnlineCount nat
  | RoomDeleting jsstring jsval
  | ForceLeaveRoom jsstring
  | RoomDeleted jsstring jsval "summary list"
  | RoomRenamed jsstring jsval jsval "jsstring option" jsval "summary list option"
  | MessageOut message
  | ImageOut jsval sender

text \<open>
  The state of the process: the two Maps in insertion order (\<open>Map.set\<close> keeps the place
  of a key it has, as \<open>AList.update\<close> does), the client objects, the id of
  \<open>defaultRoom\<close>, and the calls of \<open>ws.send\<close> made so far, oldest first, each with
  the object whose socket was written to.
\<close>

record state =
  rooms :: "(jsstring \<times> room) list"
  clients :: "(jsstring \<times> handle) list"
  heap :: "handle \<Rightarrow> client"
  defaultRoom_id :: jsstring
  sent :: "(handle \<times> out_event) list"

text \<open>
  \<open>client.ws.send(JSON.stringify(ev))\<close>: the call is recorded whatever the state of the
  socket is. Where the source tests \<open>readyState\<close> before it sends, so does the model.
\<close>

definition ws_send :: "handle \<Rightarrow> out_event \<Rightarrow> state \<Rightarrow> state" where
  "ws_send h ev s = s\<lparr>sent := sent s @ [(h, ev)]\<rparr>"

text \<open>\<open>rooms.get(k)\<close> for a key from a payload: only a string finds a room.\<close>

fun rooms_get :: "state \<Rightarrow> jsval \<Rightarrow> (jsstring \<times> room) option" where
  "rooms_get s (JStr i) = map_option (Pair i) (map_of (rooms s) i)"
| "rooms_get s v = None"

text \<open>
  A function of the source returns, or throws: \<open>Raised err s\<close> is an exception thrown
  in the state \<open>s\<close>, which keeps every assignment and every call of \<open>ws.send\<close> made
  before it. \<open>then_do\<close> is the sequence of two statements.
\<close>

datatype outcome = Done state | Raised js_error state

fun state_of :: "outcome \<Rightarrow> state" where
  "state_of (Done s) = s"
| "state_of (Raised err s) = s"

fun then_do :: "outcome \<Rightarrow> (state \<Rightarrow> outcome) \<Rightarrow> outcome" where
  "then_do (Done s) f = f s"
| "then_do (Raised err s) f = Raised err s"

text \<open>
  A call of \<open>displayServerMessage\<close> (lines 29-32) with a template literal that
  interpolates the values \<open>vs\<close>: the literal is evaluated before the call, and
  throws when one of the values has no conversion to a string. What the call prints is
  not part of the state.
\<close>

definition displayServerMessage :: "jsval list \<Rightarrow> state \<Rightarrow> outcome" where
  "displayServerMessage vs s = (if list_all printable vs then Done s else Raised TypeError s)"

section \<open>Broadcast\<close>

text \<open>The body of the \<open>forEach\<close> of \<open>broadcastToRoom\<close> (lines 514-521).\<close>

definition deliver :: "out_event \<Rightarrow> jsstring option \<Rightarrow> jsstring \<Rightarrow> state \<Rightarrow> state" where
  "deliver data excludeClientId clientId s =
     (if Some clientId = excludeClientId then s
      else case map_of (clients s) clientId of
        None \<Rightarrow> s
      | Some c \<Rightarrow> if readyState (heap s c) = OPEN then ws_send c data s else s)"

definition broadcastToRoom :: "jsstring \<Rightarrow> out_event \<Rightarrow> jsstring option \<Rightarrow> state \<Rightarrow> state" where
  "broadcastToRoom roomId data excludeClientId s =
     (case map_of (rooms s) roomId of
        None \<Rightarrow> s
      | Some room \<Rightarrow> fold (deliver data excludeClientId) (users room) s)"

definition broadcastRoomUserCount :: "jsstring \<Rightarrow> state \<Rightarrow> state" where
  "broadcastRoomUserCount roomId s =
     (case map_of (rooms s) roomId of
        None \<Rightarrow> s
      | Some room \<Rightarrow> broadcastToRoom roomId (RoomUserCount roomId (length (users room))) None s)"

definition roomList :: "state \<Rightarrow> summary list" where
  "roomList s = map (\<lambda>(i, room). Summary i (name_r room) (creatorId room)
     (js_or (creatorName room) (JStr unknown_name)) (isPrivate room) (length (users room))) (rooms s)"

definition send_if_open :: "out_event \<Rightarrow> jsstring \<times> handle \<Rightarrow> state \<Rightarrow> state" where
  "send_if_open data e s =
     (if readyState (heap s (snd e)) = OPEN then ws_send (snd e) data s else s)"

definition broadcastRoomList :: "state \<Rightarrow> state" where
  "broadcastRoomList s = fold (send_if_open (RoomList (roomList s))) (clients s) s"

definition updateOnlineCount :: "state \<Rightarrow> state" where
  "updateOnlineCount s = fold (send_if_open (OnlineCount (length (clients s)))) (clients s) s"

definition sendInitialData :: "handle \<Rightarrow> state \<Rightarrow> state" where
  "sendInitialData c s = ws_send c (Init (roomList s) (length (clients s))) s"

section \<open>Rooms\<close>

definition update_room :: "jsstring \<Rightarrow> (room \<Rightarrow> room) \<Rightarrow> state \<Rightarrow> state" where
  "update_room roomId f s = s\<lparr>rooms := AList.map_entry roomId f (rooms s)\<rparr>"

definition update_client :: "handle \<Rightarrow> (client \<Rightarrow> client) \<Rightarrow> state \<Rightarrow> state" where
  "update_client c f s = s\<lparr>heap := (heap s)(c := f (heap s c))\<rparr>"

definition room_size :: "state \<Rightarrow> jsstring \<Rightarrow> nat" where
  "room_size s roomId = (case map_of (rooms s) roomId of None \<Rightarrow> 0 | Some room \<Rightarrow> length (users room))"

text \<open>
  Leaving the current room: the same statements stand in \<open>joinRoom\<close> (lines 387-406) and
  in the close handler (lines 73-92). \<open>if (client.currentRoom)\<close> is false for
  \<open>null\<close> and for the empty string. \<open>client.currentRoom\<close> is not assigned here.
\<close>

definition leave_current :: "handle \<Rightarrow> state \<Rightarrow> state" where
  "leave_current c s =
     (case currentRoom (heap s c) of
        None \<Rightarrow> s
      | Some cur \<Rightarrow>
          if cur = [] then s
          else (case map_of (rooms s) cur of
            None \<Rightarrow> s
          | Some room \<Rightarrow>
              let s1 = update_room cur (\<lambda>r. r\<lparr>users := set_delete (id_c (heap s c)) (users r)\<rparr>) s;
                  s2 = broadcastToRoom cur
                    (UserLeft (id_c (heap s c)) (name_c (heap s c)) (avatar_c (heap s c))
                       (room_size s1 cur)) None s1
              in broadcastRoomUserCount cur s2))"

text \<open>
  \<open>joinRoom\<close> (lines 365-439). The call of \<open>displayServerMessage\<close> of line 412
  interpolates \<open>client.name\<close>, \<open>room.name\<close> and \<open>room.id\<close>, after the
  connection has left its room and entered the new one, and before anything is sent
  about the join.
\<close>

definition joinRoom :: "handle \<Rightarrow> jsval \<Rightarrow> jsval \<Rightarrow> state \<Rightarrow> outcome" where
  "joinRoom c roomId pw s =
     (case rooms_get s roomId of
        None \<Rightarrow> Done (ws_send c (Error room_not_found) s)
      | Some (rid, room) \<Rightarrow>
          if isPrivate room \<and> password room \<noteq> pw then Done (ws_send c (Error wrong_password) s)
          else
            let s1 = leave_current c s;
                s2 = update_room rid (\<lambda>r. r\<lparr>users := set_add (id_c (heap s c)) (users r)\<rparr>) s1;
                s3 = update_client c (\<lambda>cl. cl\<lparr>currentRoom := Some rid\<rparr>) s2
            in then_do (displayServerMessage [name_c (heap s c), name_r room, JStr rid] s3)
              (\<lambda>s3.
                let s4 = broadcastToRoom rid
                      (UserJoined (id_c (heap s c)) (name_c (heap s c)) (avatar_c (heap s c))
                         (room_size s3 rid)) (Some (id_c (heap s c))) s3;
                    s5 = ws_send c
                      (RoomJoined rid (name_r room) (creatorId room)
                         (js_or (creatorName room) (JStr unknown_name)) (isPrivate room)
                         (room_size s4 rid) (drop (length (history room) - 50) (history room))) s4
                in Done (broadcastRoomUserCount rid s5)))"

text \<open>
  \<open>createRoom\<close> (lines 185-218); \<open>roomId\<close> is the value of \<open>uuid.v4()\<close>. The
  call of \<open>displayServerMessage\<close> of line 208 interpolates \<open>newRoom.name\<close>,
  \<open>roomId\<close> and \<open>client.name\<close>, after the room is stored and before the room list
  is broadcast and the creator joins.
\<close>

definition createRoom :: "handle \<Rightarrow> jsval \<Rightarrow> jsval \<Rightarrow> jsstring \<Rightarrow> state \<Rightarrow> outcome" where
  "createRoom c dname pw roomId s =
     (if \<not> isVerified (heap s c) then Done (ws_send c (Error unverified_user) s)
      else
        let newRoom = \<lparr>name_r = js_or dname (JStr unnamed_room),
              creatorId = Some (id_c (heap s c)), creatorName = name_c (heap s c),
              isPrivate = truthy pw, password = js_or pw JNull, users = [], history = []\<rparr>;
            s1 = s\<lparr>rooms := AList.update roomId newRoom (rooms s)\<rparr>
        in then_do (displayServerMessage [name_r newRoom, JStr roomId, name_c (heap s c)] s1)
          (\<lambda>s1. joinRoom c (JStr roomId) pw (broadcastRoomList s1)))"

text \<open>
  \<open>uuid.v4()\<close> and \<open>Date.now()\<close> are inputs of the model: the handler of an inbound
  event is given the values they return.
\<close>

record env =
  uuid :: jsstring
  now :: int

definition sendMessage :: "handle \<Rightarrow> jsval \<Rightarrow> jsval \<Rightarrow> env \<Rightarrow> state \<Rightarrow> state" where
  "sendMessage c did dcontent e s =
     (case currentRoom (heap s c) of
        None \<Rightarrow> s
      | Some cur \<Rightarrow>
          if cur = [] then s
          else (case map_of (rooms s) cur of
            None \<Rightarrow> s
          | Some room \<Rightarrow>
              let msg = \<lparr>id_m = js_or did (JStr (uuid e)), content = dcontent, isImage = False,
                    sender_m = Sender (id_c (heap s c)) (name_c (heap s c)) (avatar_c (heap s c))
                      (Some (id_c (heap s c)) = creatorId room),
                    timestamp = now e\<rparr>;
                  s1 = update_room cur (\<lambda>r. r\<lparr>history := history r @ [msg]\<rparr>) s
              in broadcastToRoom cur (MessageOut msg) None s1))"

definition sendImage :: "handle \<Rightarrow> jsval \<Rightarrow> env \<Rightarrow> state \<Rightarrow> state" where
  "sendImage c dcontent e s =
     (case currentRoom (heap s c) of
        None \<Rightarrow> s
      | Some cur \<Rightarrow>
          if cur = [] then s
          else (case map_of (rooms s) cur of
            None \<Rightarrow> s
          | Some room \<Rightarrow>
              let snd_c = Sender (id_c (heap s c)) (name_c (heap s c)) (avatar_c (heap s c))
                      (Some (id_c (heap s c)) = creatorId room);
                  msg = \<lparr>id_m = JStr (uuid e), content = dcontent, isImage = True,
                    sender_m = snd_c, timestamp = now e\<rparr>;
                  s1 = update_room cur (\<lambda>r. r\<lparr>history := history r @ [msg]\<rparr>) s
              in broadcastToRoom cur (ImageOut dcontent snd_c) None s1))"

text \<open>
  The authorisation test of \<open>deleteRoom\<close> and \<open>renameRoom\<close> (lines 233, 308):
  \<open>room.creatorId !== data.creatorId || room.creatorId !== client.id\<close>.
\<close>

definition not_the_creator :: "room \<Rightarrow> jsval \<Rightarrow> jsstring \<Rightarrow> bool" where
  "not_the_creator room dcreatorId clientId =
     (nullable (creatorId room) \<noteq> dcreatorId \<or> creatorId room \<noteq> Some clientId)"

text \<open>The body of the \<open>forEach\<close> over \<open>usersToRemove\<close> (lines 262-272).\<close>

definition force_leave :: "jsstring \<Rightarrow> jsstring \<Rightarrow> state \<Rightarrow> state" where
  "force_leave roomId userId s =
     (case map_of (clients s) userId of
        None \<Rightarrow> s
      | Some userClient \<Rightarrow>
          ws_send userClient (ForceLeaveRoom roomId)
            (update_client userClient (\<lambda>cl. cl\<lparr>currentRoom := None\<rparr>) s))"

definition deleted_list :: "state \<Rightarrow> summary list" where
  "deleted_list s = map (\<lambda>(i, r). Summary i (name_r r) (creatorId r) JUndefined
     (isPrivate r) (length (users r))) (rooms s)"

text \<open>
  \<open>deleteRoom\<close> (lines 221-293). The call of \<open>displayServerMessage\<close> of line 251
  interpolates \<open>room.name\<close>, \<open>room.id\<close> and \<open>client.name\<close>, after the three
  tests and before anything is sent or deleted.
\<close>

definition deleteRoom :: "handle \<Rightarrow> jsval \<Rightarrow> jsval \<Rightarrow> state \<Rightarrow> outcome" where
  "deleteRoom c roomId dcreatorId s =
     (case rooms_get s roomId of
        None \<Rightarrow> Done (ws_send c (Error room_not_found) s)
      | Some (rid, room) \<Rightarrow>
          if not_the_creator room dcreatorId (id_c (heap s c))
          then Done (ws_send c (Error not_creator) s)
          else if rid = defaultRoom_id s then Done (ws_send c (Error cannot_delete_default) s)
          else then_do (displayServerMessage [name_r room, JStr rid, name_c (heap s c)] s)
            (\<lambda>s.
              let s1 = broadcastToRoom rid (RoomDeleting rid (name_r room)) None s;
                  s2 = fold (force_leave rid) (users room) s1;
                  s3 = s2\<lparr>rooms := AList.delete rid (rooms s2)\<rparr>;
                  s4 = broadcastRoomList s3
              in Done (ws_send c (RoomDeleted rid (name_r room) (deleted_list s4)) s4)))"

definition renamed_list :: "state \<Rightarrow> summary list" where
  "renamed_list s = map (\<lambda>(i, r). Summary i (name_r r) (creatorId r) (creatorName r)
     (isPrivate r) (length (users r))) (rooms s)"

text \<open>
  \<open>!data.newName || data.newName.trim().length === 0\<close> (line 317): a truthy value that
  is not a string has no \<open>trim\<close>, and the call throws.
\<close>

fun blank_name :: "jsval \<Rightarrow> js_error + bool" where
  "blank_name (JStr n) = Inr (trim n = [])"
| "blank_name v = (if truthy v then Inl TypeError else Inr True)"

fun the_string :: "jsval \<Rightarrow> jsstring" where
  "the_string (JStr n) = n"
| "the_string v = []"

text \<open>
  \<open>renameRoom\<close> (lines 296-362). The call of \<open>displayServerMessage\<close> of line 330
  interpolates \<open>oldName\<close>, \<open>room.name\<close>, \<open>room.id\<close> and \<open>client.name\<close>, after
  \<open>room.name\<close> and \<open>room.creatorName\<close> are assigned and before anything is sent.
\<close>

definition renameRoom :: "handle \<Rightarrow> jsval \<Rightarrow> jsval \<Rightarrow> jsval \<Rightarrow> state \<Rightarrow> outcome" where
  "renameRoom c roomId dcreatorId newName s =
     (case rooms_get s roomId of
        None \<Rightarrow> Done (ws_send c (Error room_not_found) s)
      | Some (rid, room) \<Rightarrow>
          if not_the_creator room dcreatorId (id_c (heap s c))
          then Done (ws_send c (Error not_creator) s)
          else (case blank_name newName of
            Inl err \<Rightarrow> Raised err s
          | Inr True \<Rightarrow> Done (ws_send c (Error empty_name) s)
          | Inr False \<Rightarrow>
              let oldName = name_r room;
                  new = JStr (trim (the_string newName));
                  s1 = update_room rid
                    (\<lambda>r. r\<lparr>name_r := new, creatorName := name_c (heap s c)\<rparr>) s
              in then_do
                (displayServerMessage [oldName, new, JStr rid, name_c (heap s c)] s1)
                (\<lambda>s1.
                  let s2 = broadcastToRoom rid
                        (RoomRenamed rid oldName new (creatorId room) (name_c (heap s c)) None)
                        None s1;
                      s3 = broadcastRoomList s2
                  in Done (ws_send c
                        (RoomRenamed rid oldName new (creatorId room) (name_c (heap s c))
                           (Some (renamed_list s3))) s3))))"

section \<open>The dispatcher and the connection handlers\<close>

text \<open>
  A decoded payload, by its \<open>type\<close>, with the fields the handler reads. \<open>Ev_unknown ty\<close>
  is a payload with any other \<open>type\<close>, the value \<open>ty\<close>; \<open>Ev_null\<close> is a payload
  on which \<open>data.type\<close> throws.
\<close>

datatype event =
  Ev_user jsval jsval jsval
  | Ev_create_room jsval jsval
  | Ev_join_room jsval jsval
  | Ev_message jsval jsval
  | Ev_image jsval
  | Ev_delete_room jsval jsval
  | Ev_rename_room jsval jsval jsval
  | Ev_get_online_count
  | Ev_unknown jsval
  | Ev_null

text \<open>
  \<open>data.id && data.id.trim() !== ''\<close> (line 125) and the id assigned when it holds.
\<close>

fun claimed_id :: "jsval \<Rightarrow> js_error + jsstring option" where
  "claimed_id (JStr i) = Inr (if i \<noteq> [] \<and> trim i \<noteq> [] then Some (trim i) else None)"
| "claimed_id v = (if truthy v then Inl TypeError else Inr None)"

text \<open>
  The \<open>user\<close> case of \<open>handleMessage\<close> (lines 120-141). The test of line 125
  comes before every assignment, so its exception leaves the state as it was. The call
  of \<open>displayServerMessage\<close> of line 140 interpolates the new \<open>client.name\<close> and
  \<open>client.id\<close>, after every assignment is made.
\<close>

definition set_user :: "handle \<Rightarrow> jsval \<Rightarrow> jsval \<Rightarrow> jsval \<Rightarrow> state \<Rightarrow> outcome" where
  "set_user c did dname davatar s =
     (case claimed_id did of
        Inl err \<Rightarrow> Raised err s
      | Inr claim \<Rightarrow>
          let oldId = id_c (heap s c);
              newId = (case claim of None \<Rightarrow> oldId | Some i \<Rightarrow> i);
              s1 = update_client c
                (\<lambda>cl. cl\<lparr>id_c := newId, name_c := dname, avatar_c := davatar, isVerified := True\<rparr>) s;
              s2 = (if oldId \<noteq> newId
                    then s1\<lparr>clients := AList.update newId c (AList.delete oldId (clients s1))\<rparr>
                    else s1)
          in displayServerMessage [dname, JStr newId] s2)"

text \<open>
  \<open>handleMessage\<close> (lines 118-182). Every case but \<open>user\<close> begins with a call of
  \<open>displayServerMessage\<close> that interpolates \<open>client.name\<close> and fields of the payload
  (lines 144, 149, 154, 159, 164, 169, 174, 179).
\<close>

definition handleMessage :: "handle \<Rightarrow> env \<Rightarrow> event \<Rightarrow> state \<Rightarrow> outcome" where
  "handleMessage c e data s =
     (case data of
        Ev_user did dname davatar \<Rightarrow> set_user c did dname davatar s
      | Ev_create_room dname pw \<Rightarrow>
          then_do (displayServerMessage [name_c (heap s c), js_or dname (JStr unnamed_room)] s)
            (createRoom c dname pw (uuid e))
      | Ev_join_room roomId pw \<Rightarrow>
          then_do (displayServerMessage [name_c (heap s c), JStr (id_c (heap s c)), roomId] s)
            (joinRoom c roomId pw)
      | Ev_message did dcontent \<Rightarrow>
          then_do (displayServerMessage
              [name_c (heap s c), nullable (currentRoom (heap s c)), dcontent] s)
            (\<lambda>s. Done (sendMessage c did dcontent e s))
      | Ev_image dcontent \<Rightarrow>
          then_do (displayServerMessage [name_c (heap s c), nullable (currentRoom (heap s c))] s)
            (\<lambda>s. Done (sendImage c dcontent e s))
      | Ev_delete_room roomId dcreatorId \<Rightarrow>
          then_do (displayServerMessage [name_c (heap s c), roomId] s)
            (deleteRoom c roomId dcreatorId)
      | Ev_rename_room roomId dcreatorId newName \<Rightarrow>
          then_do (displayServerMessage [name_c (heap s c), roomId, newName] s)
            (renameRoom c roomId dcreatorId newName)
      | Ev_get_online_count \<Rightarrow>
          then_do (displayServerMessage [name_c (heap s c)] s) (\<lambda>s. Done (updateOnlineCount s))
      | Ev_unknown ty \<Rightarrow> displayServerMessage [ty, name_c (heap s c)] s
      | Ev_null \<Rightarrow> Raised TypeError s)"

text \<open>
  The message handler (lines 57-66). The call of \<open>displayServerMessage\<close> of line 60
  interpolates \<open>client.name\<close>, \<open>client.id\<close> and the payload as JSON text, which
  every decoded payload has. An exception thrown in the \<open>try\<close> block is caught and
  logged (lines 62-65, which interpolate \<open>client.id\<close> and the exception), and the
  state stays as it was when the exception was thrown.
\<close>

definition on_message :: "handle \<Rightarrow> env \<Rightarrow> event \<Rightarrow> state \<Rightarrow> state" where
  "on_message c e data s =
     state_of (then_do (displayServerMessage [name_c (heap s c), JStr (id_c (heap s c))] s)
       (handleMessage c e data))"

text \<open>
  The connection handler (lines 35-54) for a new object \<open>c\<close> whose socket is open;
  \<open>tempClientId\<close> is the value of \<open>uuid.v4()\<close>.
\<close>

definition on_connection :: "handle \<Rightarrow> jsstring \<Rightarrow> state \<Rightarrow> state" where
  "on_connection c tempClientId s =
     (let client = \<lparr>id_c = tempClientId, readyState = OPEN, name_c = JStr anonymous_name,
            avatar_c = JStr default_avatar, currentRoom = None, isVerified = False\<rparr>;
          s1 = s\<lparr>heap := (heap s)(c := client),
                 clients := AList.update tempClientId c (clients s)\<rparr>
      in sendInitialData c (updateOnlineCount s1))"

text \<open>
  The close handler (lines 69-96), which runs in no \<open>try\<close> block. The call of
  \<open>displayServerMessage\<close> of line 70 interpolates \<open>client.name\<close> and \<open>client.id\<close>
  before the connection leaves its room and the registry.
\<close>

definition on_close :: "handle \<Rightarrow> state \<Rightarrow> outcome" where
  "on_close c s =
     then_do (displayServerMessage [name_c (heap s c), JStr (id_c (heap s c))] s)
       (\<lambda>s.
         let s1 = leave_current c s;
             s2 = s1\<lparr>clients := AList.delete (id_c (heap s1 c)) (clients s1)\<rparr>
         in Done (updateOnlineCount s2))"

text \<open>
  The state after the module is loaded (lines 11-26); \<open>d\<close> is \<open>defaultRoom.id\<close>.
  A handle that no connection has used yet holds a closed, unnamed object.
\<close>

definition defaultRoom :: room where
  "defaultRoom = \<lparr>name_r = JStr public_room_name, creatorId = None,
     creatorName = JStr system_name, isPrivate = False, password = JNull,
     users = [], history = []\<rparr>"

definition initial :: "jsstring \<Rightarrow> state" where
  "initial d = \<lparr>rooms = [(d, defaultRoom)], clients = [], heap = (\<lambda>c.
       \<lparr>id_c = [], readyState = CLOSED, name_c = JUndefined, avatar_c = JUndefined,
        currentRoom = None, isVerified = False\<rparr>),
     defaultRoom_id = d, sent = []\<rparr>"

section \<open>Reading a state\<close>

text \<open>The calls of \<open>ws.send\<close> made between a state and a later one.\<close>

definition new_sends :: "state \<Rightarrow> state \<Rightarrow> (handle \<times> out_event) list" where
  "new_sends s s' = drop (length (sent s)) (sent s')"

text \<open>
  The objects one call of \<open>broadcastToRoom\<close> writes to, in the order of the members:
  the Map \<open>cl\<close> and the store \<open>hp\<close> at the call, the excluded id, the members.
\<close>

definition recipients ::
  "(jsstring \<times> handle) list \<Rightarrow> (handle \<Rightarrow> client) \<Rightarrow> jsstring option \<Rightarrow> jsstring list \<Rightarrow> handle list" where
  "recipients cl hp excludeClientId ms = List.map_filter (\<lambda>m.
     if Some m = excludeClientId then None
     else case map_of cl m of
       None \<Rightarrow> None
     | Some c \<Rightarrow> if readyState (hp c) = OPEN then Some c else None) ms"

definition users_of :: "state \<Rightarrow> jsstring \<Rightarrow> jsstring list" where
  "users_of s roomId = (case map_of (rooms s) roomId of None \<Rightarrow> [] | Some room \<Rightarrow> users room)"

definition history_of :: "state \<Rightarrow> jsstring \<Rightarrow> message list option" where
  "history_of s roomId = map_option history (map_of (rooms s) roomId)"

text \<open>The connection has no current room: the field is unset, or names no room of the registry.\<close>

definition no_current_room :: "state \<Rightarrow> handle \<Rightarrow> bool" where
  "no_current_room s c =
     (case currentRoom (heap s c) of None \<Rightarrow> True | Some cur \<Rightarrow> map_of (rooms s) cur = None)"

text \<open>
  The histories of the \<open>room-joined\<close> events written to the object \<open>c\<close>, among
  a list of calls of \<open>ws.send\<close>.
\<close>

fun joined_history :: "handle \<Rightarrow> handle \<times> out_event \<Rightarrow> message list option" where
  "joined_history c (c', RoomJoined i n ci cn p k h) = (if c' = c then Some h else None)"
| "joined_history c other = None"

definition room_joined_replies :: "handle \<Rightarrow> (handle \<times> out_event) list \<Rightarrow> message list list" where
  "room_joined_replies c l = List.map_filter (joined_history c) l"

fun is_room_joined :: "out_event \<Rightarrow> bool" where
  "is_room_joined (RoomJoined i n ci cn p k h) = True"
| "is_room_joined other = False"

fun is_error :: "out_event \<Rightarrow> bool" where
  "is_error (Error code) = True"
| "is_error other = False"

text \<open>The registry holds every object under the object's own \<open>id\<close>.\<close>

definition registry_ok :: "state \<Rightarrow> bool" where
  "registry_ok s = list_all (\<lambda>e. id_c (heap s (snd e)) = fst e) (clients s)"

section \<open>An example state\<close>

text \<open>
  Two rooms and three connected clients: the default room \<open>lobby\<close> with bob in it, the
  private room \<open>books\<close> of alice with one message, and carol, who has not sent her
  \<open>user\<close> event.
\<close>

definition lobby :: jsstring where "lobby = [0x6C]"
definition books :: jsstring where "books = [0x62]"
definition alice :: jsstring where "alice = [0x41]"
definition bob :: jsstring where "bob = [0x42]"
definition carol :: jsstring where "carol = [0x43]"
definition secret :: jsstring where "secret = [0x73]"

definition hello :: message where
  "hello = \<lparr>id_m = JStr [0x6D, 0x31], content = JStr [0x68, 0x69], isImage = False,
     sender_m = Sender alice (JStr alice) JNull True, timestamp = 1\<rparr>"

definition example_heap :: "handle \<Rightarrow> client" where
  "example_heap c =
     (if c = 0 then \<lparr>id_c = alice, readyState = OPEN, name_c = JStr alice, avatar_c = JNull,
        currentRoom = Some books, isVerified = True\<rparr>
      else if c = 1 then \<lparr>id_c = bob, readyState = OPEN, name_c = JStr bob, avatar_c = JNull,
        currentRoom = Some lobby, isVerified = True\<rparr>
      else \<lparr>id_c = carol, readyState = OPEN, name_c = JStr anonymous_name,
        avatar_c = JStr default_avatar, currentRoom = None, isVerified = False\<rparr>)"

definition example_books :: room where
  "example_books = \<lparr>name_r = JStr books, creatorId = Some alice, creatorName = JStr alice,
     isPrivate = True, password = JStr secret, users = [alice], history = [hello]\<rparr>"

definition example :: state where
  "example = \<lparr>rooms = [(lobby, defaultRoom\<lparr>users := [bob]\<rparr>), (books, example_books)],
     clients = [(alice, 0), (bob, 1), (carol, 2)], heap = example_heap,
     defaultRoom_id = lobby, sent = []\<rparr>"

text \<open>The room \<open>books\<close> with sixty messages.\<close>

definition long_room :: room where
  "long_room = example_books\<lparr>history := replicate 60 hello\<rparr>"

text \<open>The default room alone, with alice, bob and an id that is not registered as members.\<close>

definition crowd :: state where
  "crowd = example\<lparr>rooms := [(lobby, defaultRoom\<lparr>users := [alice, bob, [0x5A]]\<rparr>)]\<rparr>"

section \<open>Runs of the server\<close>

text \<open>
  What the transport hands to the process: a new connection with its client object and
  the temporary id from \<open>uuid.v4()\<close>, an inbound payload of a connected client with
  the values \<open>uuid.v4()\<close> and \<open>Date.now()\<close> return while it is handled, the close of
  a connection, and a change of the state of a connected client's socket.
\<close>

datatype input =
  Connection handle jsstring
  | Inbound handle env event
  | Close handle
  | Socket handle ready_state

text \<open>
  The socket of a closing connection is closed when its close handler runs. Nothing in
  the source catches an exception of the close handler; the state then is the state in
  which it was thrown, and the run goes on from it, so that what holds after every run
  holds wherever the process ends.
\<close>

fun next_state :: "input \<Rightarrow> state \<Rightarrow> state" where
  "next_state (Connection c tempClientId) s = on_connection c tempClientId s"
| "next_state (Inbound c e data) s = on_message c e data s"
| "next_state (Close c) s =
     state_of (on_close c (update_client c (\<lambda>cl. cl\<lparr>readyState := CLOSED\<rparr>) s))"
| "next_state (Socket c rs) s = update_client c (\<lambda>cl. cl\<lparr>readyState := rs\<rparr>) s"

text \<open>The objects whose connection is open, kept beside the state.\<close>

fun live_after :: "input \<Rightarrow> handle list \<Rightarrow> handle list" where
  "live_after (Connection c tempClientId) live = c # live"
| "live_after (Close c) live = removeAll c live"
| "live_after i live = live"

text \<open>
  What the environment can do: a connection brings a new object, one that is neither
  connected nor in the registry, and a fresh id; payloads and closes come from connected
  objects; and the id \<open>uuid.v4()\<close> returns for a new room is not empty and not the id
  of a room of the registry.
\<close>

fun creates_room :: "event \<Rightarrow> bool" where
  "creates_room (Ev_create_room dname pw) = True"
| "creates_room other = False"

fun possible :: "input \<Rightarrow> state \<Rightarrow> handle list \<Rightarrow> bool" where
  "possible (Connection c tempClientId) s live =
     (c \<notin> set live \<and> c \<notin> snd ` set (clients s) \<and> tempClientId \<notin> fst ` set (clients s))"
| "possible (Inbound c e data) s live =
     (c \<in> set live \<and>
      (if creates_room data then uuid e \<noteq> [] \<and> uuid e \<notin> fst ` set (rooms s) else True))"
| "possible (Close c) s live = (c \<in> set live)"
| "possible (Socket c rs) s live = (c \<in> set live)"

text \<open>
  The discipline of a client that claims its identity first: a \<open>user\<close> event that
  changes the id of its connection comes while the connection has no current room, and
  names an id under which nothing is registered.
\<close>

fun changes_id :: "event \<Rightarrow> jsstring option" where
  "changes_id (Ev_user did dname davatar) =
     (case claimed_id did of Inl err \<Rightarrow> None | Inr claim \<Rightarrow> claim)"
| "changes_id other = None"

fun claims_first :: "input \<Rightarrow> state \<Rightarrow> bool" where
  "claims_first (Inbound c e data) s =
     (case changes_id data of
        None \<Rightarrow> True
      | Some newId \<Rightarrow>
          (if newId = id_c (heap s c) then True
           else currentRoom (heap s c) = None \<and> newId \<notin> fst ` set (clients s)))"
| "claims_first i s = True"

text \<open>
  The state after a list of inputs, \<open>None\<close> when an input is not possible where it
  stands (or, when \<open>strict\<close>, breaks the discipline).
\<close>

fun exec :: "bool \<Rightarrow> input list \<Rightarrow> state \<Rightarrow> handle list \<Rightarrow> state option" where
  "exec strict [] s live = Some s"
| "exec strict (i # ins) s live =
     (if possible i s live \<and> (if strict then claims_first i s else True)
      then exec strict ins (next_state i s) (live_after i live) else None)"

text \<open>The members of every room of the registry are keys of \<open>clients\<close>.\<close>

definition members_registered :: "state \<Rightarrow> bool" where
  "members_registered s =
     list_all (\<lambda>r. list_all (\<lambda>m. m \<in> fst ` set (clients s)) (users_of s r)) (map fst (rooms s))"

text \<open>
  The invariant of the disciplined runs: every connected object is registered under its
  id and every object of the registry is registered under its id; every member of a
  room is the id of a registered object whose \<open>currentRoom\<close> is that room; no room has
  the empty id.
\<close>

definition tidy :: "state \<Rightarrow> handle list \<Rightarrow> bool" where
  "tidy s live =
     ((\<forall>c \<in> set live. map_of (clients s) (id_c (heap s c)) = Some c)
      \<and> (\<forall>k c. map_of (clients s) k = Some c \<longrightarrow> id_c (heap s c) = k)
      \<and> (\<forall>r m. m \<in> set (users_of s r) \<longrightarrow>
            (\<exists>c. map_of (clients s) m = Some c \<and> currentRoom (heap s c) = Some r))
      \<and> map_of (rooms s) [] = None)"

text \<open>The \<open>creatorId\<close> of the room stored under an id, when there is one.\<close>

definition creator_of :: "state \<Rightarrow> jsstring \<Rightarrow> jsstring option option" where
  "creator_of s roomId = map_option creatorId (map_of (rooms s) roomId)"

text \<open>
  The invariant of all runs: every entry of the registry holds an object under the
  object's id; the members of a room are without repetition; no room has the empty
  id; the default room is in the registry and its \<open>creatorId\<close> is \<open>null\<close>.
\<close>

definition sound :: "state \<Rightarrow> bool" where
  "sound s =
     ((\<forall>e \<in> set (clients s). id_c (heap s (snd e)) = fst e)
      \<and> (\<forall>r. distinct (users_of s r))
      \<and> map_of (rooms s) [] = None
      \<and> creator_of s (defaultRoom_id s) = Some None)"

text \<open>Two runs from the initial state, and the states they reach.\<close>

definition temp :: jsstring where "temp = [0x74]"

definition no_env :: env where "no_env = \<lparr>uuid = [0x75], now = 0\<rparr>"

definition claim_alice :: input where
  "claim_alice = Inbound 0 no_env (Ev_user (JStr alice) (JStr alice) JNull)"

definition join_lobby :: input where
  "join_lobby = Inbound 0 no_env (Ev_join_room (JStr lobby) JUndefined)"

definition arrived :: state where
  "arrived = on_connection 0 temp (initial lobby)"

definition temp2 :: jsstring where "temp2 = [0x76]"

definition two_rooms_trace :: "input list" where
  "two_rooms_trace = [Connection 0 temp, join_lobby, claim_alice, Connection 1 temp2,
     Inbound 1 no_env (Ev_user (JStr bob) (JStr bob) JNull),
     Inbound 1 (no_env\<lparr>uuid := books\<rparr>) (Ev_create_room (JStr books) JUndefined)]"

definition two_rooms :: state where
  "two_rooms = fold next_state two_rooms_trace (initial lobby)"

text \<open>A run in which two connections claim the same id.\<close>

definition shared_id_trace :: "input list" where
  "shared_id_trace = [Connection 0 temp, claim_alice, join_lobby, Connection 1 temp2,
     Inbound 1 no_env (Ev_user (JStr alice) (JStr bob) JNull),
     Inbound 1 no_env (Ev_join_room (JStr lobby) JUndefined),
     Inbound 1 (no_env\<lparr>uuid := books\<rparr>) (Ev_create_room (JStr books) JUndefined)]"

definition shared_id :: state where
  "shared_id = fold next_state shared_id_trace (initial lobby)"

text \<open>
  A run in which a client gives an object with a key \<open>toString\<close> as its name, and
  another client creates the private room \<open>books\<close> with the password \<open>secret\<close>.
\<close>

definition odd_name :: jsval where "odd_name = JObj 0 False"

definition odd_name_trace :: "input list" where
  "odd_name_trace = [Connection 0 temp,
     Inbound 0 no_env (Ev_user (JStr alice) odd_name JNull), Connection 1 temp2,
     Inbound 1 no_env (Ev_user (JStr bob) (JStr bob) JNull),
     Inbound 1 (no_env\<lparr>uuid := books\<rparr>) (Ev_create_room (JStr books) (JStr secret))]"

definition odd_name_state :: state where
  "odd_name_state = fold next_state odd_name_trace (initial lobby)"

section \<open>What the broadcasts change\<close>

lemma ws_send_frame [simp]:
  "rooms (ws_send c ev s) = rooms s"
  "clients (ws_send c ev s) = clients s"
  "heap (ws_send c ev s) = heap s"
  "defaultRoom_id (ws_send c ev s) = defaultRoom_id s"
  "sent (ws_send c ev s) = sent s @ [(c, ev)]"
  by (simp_all add: ws_send_def)

lemma deliver_frame [simp]:
  "rooms (deliver data ex m s) = rooms s"
  "clients (deliver data ex m s) = clients s"
  "heap (deliver data ex m s) = heap s"
  "defaultRoom_id (deliver data ex m s) = defaultRoom_id s"
  by (simp_all add: deliver_def split: option.splits)

lemma fold_deliver:
  "fold (deliver data ex) ms s =
     s\<lparr>sent := sent s @ map (\<lambda>c. (c, data)) (recipients (clients s) (heap s) ex ms)\<rparr>"
proof (induction ms arbitrary: s)
  case Nil
  then show ?case by (simp add: recipients_def List.map_filter_simps)
next
  case (Cons m ms)
  show ?case
    by (simp add: Cons)
      (simp add: recipients_def deliver_def ws_send_def List.map_filter_simps split: option.splits)
qed

lemma broadcastToRoom_eq:
  "broadcastToRoom roomId data ex s =
     (case map_of (rooms s) roomId of None \<Rightarrow> s
      | Some room \<Rightarrow>
          s\<lparr>sent := sent s @ map (\<lambda>c. (c, data)) (recipients (clients s) (heap s) ex (users room))\<rparr>)"
  by (simp add: broadcastToRoom_def fold_deliver split: option.splits)

lemma broadcastToRoom_frame [simp]:
  "rooms (broadcastToRoom roomId data ex s) = rooms s"
  "clients (broadcastToRoom roomId data ex s) = clients s"
  "heap (broadcastToRoom roomId data ex s) = heap s"
  "defaultRoom_id (broadcastToRoom roomId data ex s) = defaultRoom_id s"
  by (simp_all add: broadcastToRoom_eq split: option.splits)

lemma broadcastRoomUserCount_frame [simp]:
  "rooms (broadcastRoomUserCount roomId s) = rooms s"
  "clients (broadcastRoomUserCount roomId s) = clients s"
  "heap (broadcastRoomUserCount roomId s) = heap s"
  "defaultRoom_id (broadcastRoomUserCount roomId s) = defaultRoom_id s"
  by (simp_all add: broadcastRoomUserCount_def split: option.splits)

lemma fold_send_if_open:
  "fold (send_if_open data) cs s = s\<lparr>sent := sent s @
     map (\<lambda>e. (snd e, data)) (filter (\<lambda>e. readyState (heap s (snd e)) = OPEN) cs)\<rparr>"
  by (induction cs arbitrary: s) (simp_all add: send_if_open_def ws_send_def)

lemma broadcastRoomList_frame [simp]:
  "rooms (broadcastRoomList s) = rooms s"
  "clients (broadcastRoomList s) = clients s"
  "heap (broadcastRoomList s) = heap s"
  "defaultRoom_id (broadcastRoomList s) = defaultRoom_id s"
  by (simp_all add: broadcastRoomList_def fold_send_if_open)

lemma updateOnlineCount_frame [simp]:
  "rooms (updateOnlineCount s) = rooms s"
  "clients (updateOnlineCount s) = clients s"
  "heap (updateOnlineCount s) = heap s"
  "defaultRoom_id (updateOnlineCount s) = defaultRoom_id s"
  by (simp_all add: updateOnlineCount_def fold_send_if_open)

lemma update_room_frame [simp]:
  "rooms (update_room r f s) = AList.map_entry r f (rooms s)"
  "clients (update_room r f s) = clients s"
  "heap (update_room r f s) = heap s"
  "defaultRoom_id (update_room r f s) = defaultRoom_id s"
  "sent (update_room r f s) = sent s"
  by (simp_all add: update_room_def)

lemma update_client_frame [simp]:
  "rooms (update_client c f s) = rooms s"
  "clients (update_client c f s) = clients s"
  "heap (update_client c f s) = (heap s)(c := f (heap s c))"
  "defaultRoom_id (update_client c f s) = defaultRoom_id s"
  "sent (update_client c f s) = sent s"
  by (simp_all add: update_client_def)

lemma leave_current_frame [simp]:
  "clients (leave_current c s) = clients s"
  "heap (leave_current c s) = heap s"
  "defaultRoom_id (leave_current c s) = defaultRoom_id s"
  by (simp_all add: leave_current_def Let_def split: option.splits)

lemma then_do_display [simp]:
  "then_do (displayServerMessage vs s) f = (if list_all printable vs then f s else Raised TypeError s)"
  by (simp add: displayServerMessage_def)

lemma state_of_display [simp]: "state_of (displayServerMessage vs s) = s"
  by (simp add: displayServerMessage_def)

section \<open>Messages without a room\<close>

text \<open>
  C10. A \<open>message\<close> or \<open>image\<close> event from a connection whose \<open>currentRoom\<close> is
  unset, or names a room that is no longer in the registry, is ignored: \<open>sendMessage\<close>
  and \<open>sendImage\<close> return the state they were given, and so does the handler, whether
  the dispatcher returns or throws in its log call, so no history, no other part of the
  state and no outbound event (no \<open>error\<close> either) is added.
\<close>

theorem message_without_room_ignored:
  assumes "no_current_room s c"
  shows "sendMessage c did dcontent e s = s
    \<and> sendImage c dcontent e s = s
    \<and> handleMessage c e (Ev_message did dcontent) s =
        (if printable (name_c (heap s c)) \<and> printable dcontent then Done s else Raised TypeError s)
    \<and> handleMessage c e (Ev_image dcontent) s =
        (if printable (name_c (heap s c)) then Done s else Raised TypeError s)
    \<and> on_message c e (Ev_message did dcontent) s = s
    \<and> on_message c e (Ev_image dcontent) s = s
    \<and> new_sends s (on_message c e (Ev_message did dcontent) s) = []
    \<and> new_sends s (on_message c e (Ev_image dcontent) s) = []"
proof -
  have m: "sendMessage c did dcontent e s = s"
    using assms by (simp add: no_current_room_def sendMessage_def split: option.splits)
  have i: "sendImage c dcontent e s = s"
    using assms by (simp add: no_current_room_def sendImage_def split: option.splits)
  have p: "printable (nullable (currentRoom (heap s c)))"
    by (cases "currentRoom (heap s c)") simp_all
  show ?thesis
    by (simp add: m i p handleMessage_def on_message_def new_sends_def)
qed

theorem message_without_room_ignored_witness:
  "no_current_room example 2
    \<and> on_message 2 \<lparr>uuid = [0x75], now = 5\<rparr> (Ev_message JUndefined (JStr [0x68])) example = example
    \<and> on_message 2 \<lparr>uuid = [0x75], now = 5\<rparr> (Ev_image (JStr [0x68])) example = example"
proof -
  have h: "no_current_room example 2"
    by (simp add: no_current_room_def example_def example_heap_def)
  show ?thesis
    using h message_without_room_ignored [OF h] by simp
qed

section \<open>Joining a room\<close>

lemma map_filter_app: "List.map_filter f (xs @ ys) = List.map_filter f xs @ List.map_filter f ys"
  by (induction xs) (simp_all split: option.splits)

lemma replies_simps [simp]:
  "room_joined_replies c [] = []"
  "room_joined_replies c (x # xs) =
     (case joined_history c x of None \<Rightarrow> room_joined_replies c xs
      | Some h \<Rightarrow> h # room_joined_replies c xs)"
  by (simp_all add: room_joined_replies_def split: option.splits)

lemma replies_append [simp]:
  "room_joined_replies c (xs @ ys) = room_joined_replies c xs @ room_joined_replies c ys"
  by (simp add: room_joined_replies_def map_filter_app)

lemma replies_broadcast [simp]:
  "\<not> is_room_joined ev \<Longrightarrow> room_joined_replies c (map (\<lambda>x. (x, ev)) xs) = []"
  by (induction xs) (cases ev; simp add: room_joined_replies_def)+

lemma sent_broadcastToRoom:
  "sent (broadcastToRoom r ev ex s) =
     sent s @ map (\<lambda>x. (x, ev)) (recipients (clients s) (heap s) ex (users_of s r))"
  by (simp add: broadcastToRoom_eq users_of_def recipients_def split: option.splits)

lemma sent_broadcastRoomUserCount:
  "sent (broadcastRoomUserCount r s) =
     sent s @ map (\<lambda>x. (x, RoomUserCount r (room_size s r)))
       (recipients (clients s) (heap s) None (users_of s r))"
  by (simp add: broadcastRoomUserCount_def sent_broadcastToRoom room_size_def users_of_def
      recipients_def split: option.splits)

lemma sent_leave_current:
  "\<exists>l. sent (leave_current c s) = sent s @ l \<and> (\<forall>c'. room_joined_replies c' l = [])"
  by (simp add: leave_current_def Let_def sent_broadcastToRoom sent_broadcastRoomUserCount
      split: option.splits)

lemma map_of_map_entry':
  "map_of (AList.map_entry k f xs) k' =
     (if k' = k then map_option f (map_of xs k) else map_of xs k')"
  by (simp add: map_of_map_entry split: option.splits)

lemma rooms_leave_current:
  "map_of (rooms (leave_current c s)) r =
     map_option (\<lambda>room. if currentRoom (heap s c) = Some r \<and> r \<noteq> []
        then room\<lparr>users := set_delete (id_c (heap s c)) (users room)\<rparr> else room)
       (map_of (rooms s) r)"
  by (cases "map_of (rooms s) r")
    (auto simp add: leave_current_def Let_def map_of_map_entry' split: option.splits)

lemma history_leave_current [simp]: "history_of (leave_current c s) r = history_of s r"
  by (cases "map_of (rooms s) r") (simp_all add: history_of_def rooms_leave_current)

lemma rooms_get_SomeD:
  "rooms_get s roomId = Some (rid, room) \<Longrightarrow> roomId = JStr rid \<and> map_of (rooms s) rid = Some room"
  by (cases roomId) auto

lemma joinRoom_refused:
  "rooms_get s roomId = None \<Longrightarrow> joinRoom c roomId pw s = Done (ws_send c (Error room_not_found) s)"
  "rooms_get s roomId = Some (rid, room) \<Longrightarrow> isPrivate room \<Longrightarrow> password room \<noteq> pw \<Longrightarrow>
     joinRoom c roomId pw s = Done (ws_send c (Error wrong_password) s)"
  by (simp_all add: joinRoom_def)

text \<open>The two ways a join that passes the tests ends: line 412 returns, or throws.\<close>

lemma joinRoom_Done:
  assumes "rooms_get s roomId = Some (rid, room)" and "isPrivate room \<longrightarrow> password room = pw"
    and "printable (name_c (heap s c))" and "printable (name_r room)"
  shows "\<exists>s'. joinRoom c roomId pw s = Done s'"
proof -
  have ok: "\<not> (isPrivate room \<and> password room \<noteq> pw)"
    using assms(2) by blast
  show ?thesis
    using assms(1,3,4) by (simp add: joinRoom_def Let_def ok)
qed

lemma joinRoom_Raised:
  assumes "rooms_get s roomId = Some (rid, room)" and "isPrivate room \<longrightarrow> password room = pw"
    and "\<not> (printable (name_c (heap s c)) \<and> printable (name_r room))"
  shows "joinRoom c roomId pw s = Raised TypeError
      (update_client c (\<lambda>cl. cl\<lparr>currentRoom := Some rid\<rparr>)
        (update_room rid (\<lambda>r. r\<lparr>users := set_add (id_c (heap s c)) (users r)\<rparr>)
          (leave_current c s)))"
proof -
  have ok: "\<not> (isPrivate room \<and> password room \<noteq> pw)"
    using assms(2) by blast
  show ?thesis
    using assms(1,3) by (auto simp add: joinRoom_def Let_def ok)
qed

lemma joinRoom_frame:
  assumes "rooms_get s roomId = Some (rid, room)" and "isPrivate room \<longrightarrow> password room = pw"
  shows "clients (state_of (joinRoom c roomId pw s)) = clients s"
    and "heap (state_of (joinRoom c roomId pw s)) = (heap s)(c := (heap s c)\<lparr>currentRoom := Some rid\<rparr>)"
    and "defaultRoom_id (state_of (joinRoom c roomId pw s)) = defaultRoom_id s"
    and "map_of (rooms (state_of (joinRoom c roomId pw s))) r =
      map_option (\<lambda>rm. if r = rid then rm\<lparr>users := set_add (id_c (heap s c)) (users rm)\<rparr> else rm)
        (map_of (rooms (leave_current c s)) r)"
  using assms
  by (auto simp add: joinRoom_def Let_def map_of_map_entry' option.map_ident
      cong: option.map_cong)

lemma history_joinRoom: "history_of (state_of (joinRoom c roomId pw s)) r = history_of s r"
proof (cases "rooms_get s roomId")
  case None
  then show ?thesis by (simp add: joinRoom_refused history_of_def)
next
  case (Some p)
  obtain rid room where p: "p = (rid, room)" by (cases p)
  show ?thesis
  proof (cases "isPrivate room \<and> password room \<noteq> pw")
    case True
    then show ?thesis using Some p by (simp add: joinRoom_refused history_of_def)
  next
    case False
    then have ok: "isPrivate room \<longrightarrow> password room = pw" by simp
    have "history_of (state_of (joinRoom c roomId pw s)) r = history_of (leave_current c s) r"
      unfolding history_of_def joinRoom_frame(4) [OF Some [unfolded p] ok]
      by (cases "map_of (rooms (leave_current c s)) r") simp_all
    then show ?thesis by simp
  qed
qed

lemma room_size_users_of: "room_size s r = length (users_of s r)"
  by (simp add: room_size_def users_of_def split: option.splits)

lemma users_of_frame [simp]:
  "users_of (ws_send c ev s) = users_of s"
  "users_of (broadcastToRoom r ev ex s) = users_of s"
  "users_of (broadcastRoomUserCount r s) = users_of s"
  "users_of (broadcastRoomList s) = users_of s"
  "users_of (update_client c f s) = users_of s"
  by (simp_all add: users_of_def fun_eq_iff)

lemma users_of_update_room:
  "users_of (update_room r (\<lambda>rm. rm\<lparr>users := g (users rm)\<rparr>) s) r' =
     (if r' = r \<and> map_of (rooms s) r \<noteq> None then g (users_of s r) else users_of s r')"
  by (auto simp add: users_of_def map_of_map_entry' split: option.splits)

lemma leave_current_None [simp]:
  "(map_of (rooms (leave_current c s)) r = None) = (map_of (rooms s) r = None)"
  by (simp add: rooms_leave_current)

lemma users_of_leave_current:
  "users_of (leave_current c s) r =
     (if currentRoom (heap s c) = Some r \<and> r \<noteq> []
      then set_delete (id_c (heap s c)) (users_of s r) else users_of s r)"
  by (cases "map_of (rooms s) r") (simp_all add: users_of_def rooms_leave_current set_delete_def)

lemma sent_joinRoom:
  assumes "rooms_get s roomId = Some (rid, room)" and "isPrivate room \<longrightarrow> password room = pw"
    and "printable (name_c (heap s c))" and "printable (name_r room)"
  shows "sent (state_of (joinRoom c roomId pw s)) = sent (leave_current c s) @
      map (\<lambda>x. (x, UserJoined (id_c (heap s c)) (name_c (heap s c)) (avatar_c (heap s c))
          (length (set_add (id_c (heap s c)) (users_of (leave_current c s) rid)))))
        (recipients (clients s) ((heap s)(c := (heap s c)\<lparr>currentRoom := Some rid\<rparr>))
          (Some (id_c (heap s c))) (set_add (id_c (heap s c)) (users_of (leave_current c s) rid))) @
      [(c, RoomJoined rid (name_r room) (creatorId room)
           (js_or (creatorName room) (JStr unknown_name)) (isPrivate room)
           (length (set_add (id_c (heap s c)) (users_of (leave_current c s) rid)))
           (drop (length (history room) - 50) (history room)))] @
      map (\<lambda>x. (x, RoomUserCount rid
          (length (set_add (id_c (heap s c)) (users_of (leave_current c s) rid)))))
        (recipients (clients s) ((heap s)(c := (heap s c)\<lparr>currentRoom := Some rid\<rparr>))
          None (set_add (id_c (heap s c)) (users_of (leave_current c s) rid)))"
proof -
  have r: "map_of (rooms s) rid = Some room"
    using assms(1) by (simp add: rooms_get_SomeD)
  have ok: "\<not> (isPrivate room \<and> password room \<noteq> pw)"
    using assms(2) by blast
  show ?thesis
    using assms(1,3,4)
    by (simp add: joinRoom_def Let_def sent_broadcastToRoom sent_broadcastRoomUserCount
        room_size_users_of users_of_update_room r ok)
qed

lemma sent_joinRoom_Raised:
  assumes "rooms_get s roomId = Some (rid, room)" and "isPrivate room \<longrightarrow> password room = pw"
    and "\<not> (printable (name_c (heap s c)) \<and> printable (name_r room))"
  shows "sent (state_of (joinRoom c roomId pw s)) = sent (leave_current c s)"
  by (simp add: joinRoom_Raised [OF assms])

lemma replies_joinRoom:
  assumes "rooms_get s roomId = Some (rid, room)" and "isPrivate room \<longrightarrow> password room = pw"
    and "printable (name_c (heap s c))" and "printable (name_r room)"
  shows "room_joined_replies c (new_sends s (state_of (joinRoom c roomId pw s))) =
        [drop (length (history room) - 50) (history room)]"
proof -
  obtain l1 where l1: "sent (leave_current c s) = sent s @ l1" "\<forall>c'. room_joined_replies c' l1 = []"
    using sent_leave_current by blast
  show ?thesis
    by (simp add: new_sends_def sent_joinRoom [OF assms] l1)
qed

lemma replies_joinRoom_Raised:
  assumes "rooms_get s roomId = Some (rid, room)" and "isPrivate room \<longrightarrow> password room = pw"
    and "\<not> (printable (name_c (heap s c)) \<and> printable (name_r room))"
  shows "room_joined_replies c' (new_sends s (state_of (joinRoom c roomId pw s))) = []"
proof -
  obtain l1 where l1: "sent (leave_current c s) = sent s @ l1" "\<forall>c'. room_joined_replies c' l1 = []"
    using sent_leave_current by blast
  show ?thesis
    by (simp add: new_sends_def sent_joinRoom_Raised [OF assms] l1)
qed

text \<open>
  C5. A successful join (the room is found, the password test is passed, and the names
  of the joiner and of the room have a conversion to a string, so that \<open>joinRoom\<close>
  returns) of a room whose history holds \<open>k\<close> messages writes one \<open>room-joined\<close>
  event to the joiner, and its history is the last \<open>min k 50\<close> messages of the room
  in their order. A join, however it ends, leaves the history of every room as it was,
  and \<open>sendMessage\<close> and \<open>sendImage\<close> only append to a history: nothing is ever
  removed from the store.
\<close>

theorem join_replays_last_50:
  assumes "rooms_get s roomId = Some (rid, room)" and "isPrivate room \<longrightarrow> password room = pw"
    and "printable (name_c (heap s c))" and "printable (name_r room)"
  shows "(\<exists>s'. joinRoom c roomId pw s = Done s')
    \<and> room_joined_replies c (new_sends s (state_of (joinRoom c roomId pw s))) =
        [drop (length (history room) - 50) (history room)]
    \<and> length (drop (length (history room) - 50) (history room)) = min (length (history room)) 50
    \<and> take (length (history room) - 50) (history room)
        @ drop (length (history room) - 50) (history room) = history room
    \<and> (\<forall>r. history_of (state_of (joinRoom c roomId pw s)) r = history_of s r)
    \<and> (\<forall>r. \<exists>ms. history_of (sendMessage c did dcontent e s) r
          = map_option (\<lambda>h. h @ ms) (history_of s r))
    \<and> (\<forall>r. \<exists>ms. history_of (sendImage c dcontent e s) r
          = map_option (\<lambda>h. h @ ms) (history_of s r))"
proof -
  have d: "\<exists>s'. joinRoom c roomId pw s = Done s'"
    by (rule joinRoom_Done [OF assms])
  have a: "room_joined_replies c (new_sends s (state_of (joinRoom c roomId pw s))) =
        [drop (length (history room) - 50) (history room)]"
    by (rule replies_joinRoom [OF assms])
  have b: "length (drop (length (history room) - 50) (history room)) = min (length (history room)) 50"
    by simp
  have m: "\<exists>ms. history_of (sendMessage c did dcontent e s) r
          = map_option (\<lambda>h. h @ ms) (history_of s r)" for r
  proof (cases "history_of (sendMessage c did dcontent e s) r = history_of s r")
    case True
    then show ?thesis
      by (intro exI [of _ "[]"]) (simp add: option.map_ident)
  next
    case False
    then show ?thesis
      by (cases "map_of (rooms s) r")
        (auto simp add: sendMessage_def Let_def history_of_def map_of_map_entry'
          split: option.splits if_splits)
  qed
  have i: "\<exists>ms. history_of (sendImage c dcontent e s) r
          = map_option (\<lambda>h. h @ ms) (history_of s r)" for r
  proof (cases "history_of (sendImage c dcontent e s) r = history_of s r")
    case True
    then show ?thesis
      by (intro exI [of _ "[]"]) (simp add: option.map_ident)
  next
    case False
    then show ?thesis
      by (cases "map_of (rooms s) r")
        (auto simp add: sendImage_def Let_def history_of_def map_of_map_entry'
          split: option.splits if_splits)
  qed
  show ?thesis
    using d a b m i history_joinRoom by simp
qed

lemma no_error_leave_current:
  "\<exists>l. sent (leave_current c s) = sent s @ l \<and> (\<forall>x \<in> set l. \<not> is_error (snd x))"
  by (auto simp add: leave_current_def Let_def sent_broadcastToRoom sent_broadcastRoomUserCount
      split: option.splits)

lemma no_error_joinRoom:
  assumes "rooms_get s roomId = Some (rid, room)" and "isPrivate room \<longrightarrow> password room = pw"
  shows "\<forall>x \<in> set (new_sends s (state_of (joinRoom c roomId pw s))). \<not> is_error (snd x)"
proof -
  obtain l where l: "sent (leave_current c s) = sent s @ l" "\<forall>x \<in> set l. \<not> is_error (snd x)"
    using no_error_leave_current by blast
  show ?thesis
  proof (cases "printable (name_c (heap s c)) \<and> printable (name_r room)")
    case True
    then show ?thesis
      using l(2) by (auto simp add: new_sends_def sent_joinRoom [OF assms] l(1))
  next
    case False
    then show ?thesis
      using l(2) by (auto simp add: new_sends_def sent_joinRoom_Raised [OF assms] l(1))
  qed
qed

lemma set_add_member [simp]: "x \<in> set (set_add x xs)"
  by (simp add: set_add_def)

lemma users_of_joinRoom:
  assumes "rooms_get s roomId = Some (rid, room)" and "isPrivate room \<longrightarrow> password room = pw"
  shows "users_of (state_of (joinRoom c roomId pw s)) r =
     (if r = rid then set_add (id_c (heap s c)) (users_of (leave_current c s) r)
      else users_of (leave_current c s) r)"
proof -
  have "map_of (rooms (leave_current c s)) rid \<noteq> None"
    using assms(1) by (simp add: rooms_get_SomeD)
  then show ?thesis
    by (auto simp add: users_of_def joinRoom_frame(4) [OF assms] simp del: leave_current_None
        split: option.splits)
qed

text \<open>
  What \<open>joinRoom\<close> does with a request for a private room (C3). It answers with a
  \<open>room-joined\<close> event if and only if the supplied password equals the stored one
  and, besides, the names of the requester and of the room have a conversion to a
  string: with the right password the requester is made a member, its \<open>currentRoom\<close>
  is the room and no \<open>error\<close> is written, but line 412 throws when a name has no
  conversion, and then nothing is sent about the join. On a mismatch (an absent or empty
  password included) the only effect is one \<open>error\<close> event with code
  \<open>wrong-password\<close> to the requester: the rooms, the registry and every client
  object, the requester's \<open>currentRoom\<close> with them, are as before.
\<close>

theorem private_join_reply:
  assumes "rooms_get s roomId = Some (rid, room)" and "isPrivate room"
  shows "(room_joined_replies c (new_sends s (state_of (joinRoom c roomId pw s))) \<noteq> [])
        = (password room = pw \<and> printable (name_c (heap s c)) \<and> printable (name_r room))
    \<and> (if password room = pw
        then currentRoom (heap (state_of (joinRoom c roomId pw s)) c) = Some rid
          \<and> id_c (heap s c) \<in> set (users_of (state_of (joinRoom c roomId pw s)) rid)
          \<and> list_all (\<lambda>x. \<not> is_error (snd x)) (new_sends s (state_of (joinRoom c roomId pw s)))
        else joinRoom c roomId pw s = Done (ws_send c (Error wrong_password) s)
          \<and> new_sends s (state_of (joinRoom c roomId pw s)) = [(c, Error wrong_password)]
          \<and> rooms (state_of (joinRoom c roomId pw s)) = rooms s
          \<and> clients (state_of (joinRoom c roomId pw s)) = clients s
          \<and> heap (state_of (joinRoom c roomId pw s)) = heap s)"
proof (cases "password room = pw")
  case True
  then have ok: "isPrivate room \<longrightarrow> password room = pw" by simp
  have r: "(room_joined_replies c (new_sends s (state_of (joinRoom c roomId pw s))) \<noteq> [])
        = (printable (name_c (heap s c)) \<and> printable (name_r room))"
  proof (cases "printable (name_c (heap s c)) \<and> printable (name_r room)")
    case True
    then show ?thesis
      using replies_joinRoom [OF assms(1) ok, of c] by simp
  next
    case False
    then show ?thesis
      using replies_joinRoom_Raised [OF assms(1) ok False, of c] by simp
  qed
  show ?thesis
    using True no_error_joinRoom [OF assms(1) ok, of c] r
    by (simp add: joinRoom_frame(2) [OF assms(1) ok]
        users_of_joinRoom [OF assms(1) ok] list_all_iff)
next
  case False
  then show ?thesis
    using assms by (simp add: joinRoom_refused new_sends_def)
qed

lemma example_rooms [simp]:
  "map_of (rooms example) books = Some example_books"
  "map_of (rooms example) lobby = Some (defaultRoom\<lparr>users := [bob]\<rparr>)"
  by (simp_all add: example_def books_def lobby_def)

lemma example_rooms_get:
  "rooms_get example (JStr books) = Some (books, example_books)"
  "rooms_get example (JStr lobby) = Some (lobby, defaultRoom\<lparr>users := [bob]\<rparr>)"
  by simp_all

lemma example_books_fields [simp]:
  "isPrivate example_books" "password example_books = JStr secret"
  "creatorId example_books = Some alice" "users example_books = [alice]"
  "history example_books = [hello]" "name_r example_books = JStr books"
  by (simp_all add: example_books_def)

lemma example_printable [simp]:
  "name_c (heap example 0) = JStr alice" "name_c (heap example (Suc 0)) = JStr bob"
  "name_c (heap example 2) = JStr anonymous_name"
  "heap (example\<lparr>rooms := rs\<rparr>) = heap example"
  by (simp_all add: example_def example_heap_def)

theorem private_join_reply_witness:
  "rooms_get example (JStr books) = Some (books, example_books) \<and> isPrivate example_books
    \<and> password example_books \<noteq> JStr []
    \<and> joinRoom 1 (JStr books) (JStr []) example = Done (ws_send 1 (Error wrong_password) example)
    \<and> room_joined_replies 1
        (new_sends example (state_of (joinRoom 1 (JStr books) (JStr secret) example))) \<noteq> []"
proof -
  have h: "isPrivate example_books"
    by simp
  show ?thesis
    using private_join_reply [OF example_rooms_get(1) h, of 1 "JStr []"]
      private_join_reply [OF example_rooms_get(1) h, of 1 "JStr secret"]
    by (simp add: secret_def)
qed

theorem join_replays_last_50_witness:
  "rooms_get (example\<lparr>rooms := [(books, long_room)]\<rparr>) (JStr books) = Some (books, long_room)
    \<and> isPrivate long_room \<and> password long_room = JStr secret
    \<and> length (history long_room) = 60
    \<and> printable (name_c (heap (example\<lparr>rooms := [(books, long_room)]\<rparr>) 1))
    \<and> printable (name_r long_room)
    \<and> room_joined_replies 1 (new_sends (example\<lparr>rooms := [(books, long_room)]\<rparr>)
         (state_of (joinRoom 1 (JStr books) (JStr secret) (example\<lparr>rooms := [(books, long_room)]\<rparr>))))
       = [replicate 50 hello]"
proof -
  have h1: "rooms_get (example\<lparr>rooms := [(books, long_room)]\<rparr>) (JStr books) = Some (books, long_room)"
    by simp
  have h2: "isPrivate long_room \<longrightarrow> password long_room = JStr secret"
    by (simp add: long_room_def)
  have h3: "printable (name_c (heap (example\<lparr>rooms := [(books, long_room)]\<rparr>) 1))"
    by simp
  have h4: "printable (name_r long_room)"
    by (simp add: long_room_def)
  show ?thesis
    using h1 h2 h3 h4 join_replays_last_50 [OF h1 h2 h3 h4]
    by (simp add: long_room_def)
qed

section \<open>Creator-only deletion and renaming\<close>


lemma force_leave_frame [simp]:
  "rooms (force_leave r m s) = rooms s"
  "clients (force_leave r m s) = clients s"
  "defaultRoom_id (force_leave r m s) = defaultRoom_id s"
  by (simp_all add: force_leave_def split: option.splits)

lemma fold_force_leave_frame [simp]:
  "rooms (fold (force_leave r) ms s) = rooms s"
  "clients (fold (force_leave r) ms s) = clients s"
  "defaultRoom_id (fold (force_leave r) ms s) = defaultRoom_id s"
  by (induction ms arbitrary: s) simp_all

lemma deleteRoom_refused:
  "rooms_get s roomId = None \<Longrightarrow> deleteRoom c roomId d s = Done (ws_send c (Error room_not_found) s)"
  "rooms_get s roomId = Some (rid, room) \<Longrightarrow> not_the_creator room d (id_c (heap s c)) \<Longrightarrow>
     deleteRoom c roomId d s = Done (ws_send c (Error not_creator) s)"
  by (simp_all add: deleteRoom_def)






lemma example_clients [simp]:
  "id_c (heap example 0) = alice" "id_c (heap example (Suc 0)) = bob" "id_c (heap example 2) = carol"
  "isVerified (heap example 0)" "isVerified (heap example (Suc 0))" "\<not> isVerified (heap example 2)"
  "currentRoom (heap example 0) = Some books" "currentRoom (heap example (Suc 0)) = Some lobby"
  "currentRoom (heap example 2) = None"
  "defaultRoom_id example = lobby" "sent example = []"
  "clients example = [(alice, 0), (bob, 1), (carol, 2)]"
  by (simp_all add: example_def example_heap_def)

lemma example_names [simp]:
  "alice \<noteq> bob" "alice \<noteq> carol" "bob \<noteq> carol" "bob \<noteq> alice" "carol \<noteq> alice" "carol \<noteq> bob"
  "books \<noteq> lobby" "lobby \<noteq> books" "lobby \<noteq> []" "books \<noteq> []" "secret \<noteq> []"
  by (simp_all add: alice_def bob_def carol_def books_def lobby_def secret_def)


section \<open>Creating a room, broadcasting, claiming an identity\<close>

lemma replies_to_all [simp]:
  "\<not> is_room_joined ev \<Longrightarrow> room_joined_replies c (map (\<lambda>x. (f x, ev)) xs) = []"
  by (induction xs) (cases ev; simp)+


lemma createRoom_refused:
  "\<not> isVerified (heap s c) \<Longrightarrow> createRoom c dname pw rid s = Done (ws_send c (Error unverified_user) s)"
  by (simp add: createRoom_def)



lemma map_fst_map_entry [simp]: "map fst (AList.map_entry k f xs) = map fst xs"
  by (induction xs) auto

lemma keys_leave_current [simp]: "map fst (rooms (leave_current c s)) = map fst (rooms s)"
  by (simp add: leave_current_def Let_def split: option.splits)

lemma keys_joinRoom [simp]: "map fst (rooms (state_of (joinRoom c roomId pw s))) = map fst (rooms s)"
  by (simp add: joinRoom_def Let_def split: option.splits)




lemma registry_okD: "registry_ok s \<Longrightarrow> map_of (clients s) k = Some c \<Longrightarrow> id_c (heap s c) = k"
proof -
  assume a: "registry_ok s" and b: "map_of (clients s) k = Some c"
  from b have "(k, c) \<in> set (clients s)" by (rule map_of_SomeD)
  with a show ?thesis by (auto simp add: registry_ok_def list_all_iff)
qed

lemma count_map_filter_inj:
  assumes "distinct ms" and "\<And>m. g m = Some c \<Longrightarrow> m = k"
  shows "count_list (List.map_filter g ms) c = (if k \<in> set ms \<and> g k = Some c then 1 else 0)"
  using assms(1)
proof (induction ms)
  case Nil
  then show ?case by simp
next
  case (Cons m ms)
  show ?case
  proof (cases "g m = Some c")
    case True
    then have "m = k" by (rule assms(2))
    then show ?thesis using True Cons by simp
  next
    case False
    then show ?thesis using Cons by (cases "g m") auto
  qed
qed

lemma count_list_tagged:
  "count_list (map (\<lambda>x. (x, ev)) xs) (c, e) = (if e = ev then count_list xs c else 0)"
  by (induction xs) auto

text \<open>
  C6. In a state where the registry holds every object under the object's own id, a
  broadcast to a room with \<open>excludeClientId = X\<close> writes the event exactly once to
  every object whose id is a member other than \<open>X\<close>, that is registered and whose socket
  is open, and writes nothing else: nothing to the connection with id \<open>X\<close>, nothing to a
  member that is not registered or not open, nothing to anyone outside the room. The
  rest of the state is as before.
\<close>

theorem broadcast_exactly_once:
  assumes "map_of (rooms s) roomId = Some room" and "distinct (users room)" and "registry_ok s"
  shows "sent (broadcastToRoom roomId ev (Some X) s)
        = sent s @ new_sends s (broadcastToRoom roomId ev (Some X) s)
    \<and> (\<forall>c e. count_list (new_sends s (broadcastToRoom roomId ev (Some X) s)) (c, e) =
          (if e = ev \<and> id_c (heap s c) \<in> set (users room) \<and> id_c (heap s c) \<noteq> X
              \<and> map_of (clients s) (id_c (heap s c)) = Some c \<and> readyState (heap s c) = OPEN
           then 1 else 0))
    \<and> rooms (broadcastToRoom roomId ev (Some X) s) = rooms s
    \<and> clients (broadcastToRoom roomId ev (Some X) s) = clients s
    \<and> heap (broadcastToRoom roomId ev (Some X) s) = heap s"
proof -
  define g where "g = (\<lambda>m. if Some m = Some X then None
     else case map_of (clients s) m of
       None \<Rightarrow> None
     | Some c \<Rightarrow> if readyState (heap s c) = OPEN then Some c else None)"
  have n: "new_sends s (broadcastToRoom roomId ev (Some X) s)
      = map (\<lambda>c. (c, ev)) (List.map_filter g (users room))"
    by (simp add: new_sends_def broadcastToRoom_eq assms(1) recipients_def g_def)
  have inj: "m = id_c (heap s c)" if "g m = Some c" for m c
    using that registry_okD [OF assms(3), of m c]
    by (auto simp add: g_def split: if_splits option.splits)
  have cnt: "count_list (List.map_filter g (users room)) c
      = (if id_c (heap s c) \<in> set (users room) \<and> g (id_c (heap s c)) = Some c then 1 else 0)" for c
    by (rule count_map_filter_inj [OF assms(2)]) (rule inj)
  have gk: "(g (id_c (heap s c)) = Some c) = (id_c (heap s c) \<noteq> X
      \<and> map_of (clients s) (id_c (heap s c)) = Some c \<and> readyState (heap s c) = OPEN)" for c
    by (auto simp add: g_def split: option.splits)
  have s: "sent (broadcastToRoom roomId ev (Some X) s)
        = sent s @ new_sends s (broadcastToRoom roomId ev (Some X) s)"
    by (simp add: new_sends_def broadcastToRoom_eq assms(1))
  show ?thesis
    using s by (simp add: n count_list_tagged cnt gk)
qed

theorem broadcast_exactly_once_witness:
  "map_of (rooms crowd) lobby = Some (defaultRoom\<lparr>users := [alice, bob, [0x5A]]\<rparr>)
    \<and> distinct (users (defaultRoom\<lparr>users := [alice, bob, [0x5A]]\<rparr>)) \<and> registry_ok crowd
    \<and> count_list (new_sends crowd (broadcastToRoom lobby (OnlineCount 3) (Some alice) crowd))
          (0, OnlineCount 3) = 0
    \<and> count_list (new_sends crowd (broadcastToRoom lobby (OnlineCount 3) (Some alice) crowd))
          (1, OnlineCount 3) = 1
    \<and> count_list (new_sends crowd (broadcastToRoom lobby (OnlineCount 3) (Some alice) crowd))
          (2, OnlineCount 3) = 0"
proof -
  have h1: "map_of (rooms crowd) lobby = Some (defaultRoom\<lparr>users := [alice, bob, [0x5A]]\<rparr>)"
    by (simp add: crowd_def)
  have h2: "distinct (users (defaultRoom\<lparr>users := [alice, bob, [0x5A]]\<rparr>))"
    by (simp add: alice_def bob_def)
  have h3: "registry_ok crowd"
    by (simp add: registry_ok_def crowd_def)
  have c: "clients crowd = clients example" "heap crowd = heap example"
    by (simp_all add: crowd_def)
  have "\<forall>c e. count_list (new_sends crowd (broadcastToRoom lobby (OnlineCount 3) (Some alice) crowd)) (c, e) =
          (if e = OnlineCount 3 \<and> id_c (heap crowd c) \<in> set (users (defaultRoom\<lparr>users := [alice, bob, [0x5A]]\<rparr>))
              \<and> id_c (heap crowd c) \<noteq> alice
              \<and> map_of (clients crowd) (id_c (heap crowd c)) = Some c \<and> readyState (heap crowd c) = OPEN
           then 1 else 0)"
    using broadcast_exactly_once [OF h1 h2 h3, of "OnlineCount 3" alice] by blast
  then show ?thesis
    using h1 h2 h3 by (simp add: c carol_def) (simp add: example_def example_heap_def)
qed

text \<open>
  C8, as the code has it. A \<open>user\<close> event changes the sender's object (id, name,
  avatar, verified flag) and the registry at the object's old and new id, and nothing
  else: the rooms with their members, the \<open>currentRoom\<close> of the sender, every other
  object, the registry at every other key and the calls of \<open>ws.send\<close> are as before.
  So a membership recorded under the old id stays in the room. When the id changes, the
  registry has nothing under the old id afterwards and the sender's object under the new
  one, whatever it held there before. The event changes nothing at all when the name the
  object has had so far has no conversion to a string (line 60 throws), and when
  \<open>data.id\<close> is truthy and not a string (line 125 throws before anything is
  assigned); an exception of line 140 comes after every assignment.
\<close>

theorem identity_claim_frame:
  "rooms (on_message c e (Ev_user did dname davatar) s) = rooms s
    \<and> sent (on_message c e (Ev_user did dname davatar) s) = sent s
    \<and> (\<forall>r. users_of (on_message c e (Ev_user did dname davatar) s) r = users_of s r)
    \<and> currentRoom (heap (on_message c e (Ev_user did dname davatar) s) c) = currentRoom (heap s c)
    \<and> readyState (heap (on_message c e (Ev_user did dname davatar) s) c) = readyState (heap s c)
    \<and> (\<forall>c'. c' \<noteq> c \<longrightarrow> heap (on_message c e (Ev_user did dname davatar) s) c' = heap s c')
    \<and> (\<forall>k. k \<noteq> id_c (heap s c) \<and> k \<noteq> id_c (heap (on_message c e (Ev_user did dname davatar) s) c)
          \<longrightarrow> map_of (clients (on_message c e (Ev_user did dname davatar) s)) k = map_of (clients s) k)
    \<and> (if printable (name_c (heap s c))
        then (case claimed_id did of
            Inl err \<Rightarrow> on_message c e (Ev_user did dname davatar) s = s
          | Inr claim \<Rightarrow>
              heap (on_message c e (Ev_user did dname davatar) s) c
                = (heap s c)\<lparr>id_c := (case claim of None \<Rightarrow> id_c (heap s c) | Some i \<Rightarrow> i),
                     name_c := dname, avatar_c := davatar, isVerified := True\<rparr>
              \<and> (id_c (heap (on_message c e (Ev_user did dname davatar) s) c) \<noteq> id_c (heap s c)
                  \<longrightarrow> map_of (clients (on_message c e (Ev_user did dname davatar) s)) (id_c (heap s c)) = None
                    \<and> map_of (clients (on_message c e (Ev_user did dname davatar) s))
                        (id_c (heap (on_message c e (Ev_user did dname davatar) s) c)) = Some c))
        else on_message c e (Ev_user did dname davatar) s = s)"
  by (cases "claimed_id did")
    (auto simp add: on_message_def handleMessage_def set_user_def Let_def users_of_def
      update_conv' delete_conv' split: option.splits)

theorem identity_claim_frame_witness:
  "users_of (on_message 1 \<lparr>uuid = [], now = 0\<rparr> (Ev_user (JStr [0x5A]) (JStr bob) JNull) example) lobby = [bob]
    \<and> map_of (clients (on_message 1 \<lparr>uuid = [], now = 0\<rparr> (Ev_user (JStr [0x5A]) (JStr bob) JNull) example)) bob = None
    \<and> map_of (clients (on_message 1 \<lparr>uuid = [], now = 0\<rparr> (Ev_user (JStr [0x5A]) (JStr bob) JNull) example)) [0x5A] = Some 1
    \<and> currentRoom (heap (on_message 1 \<lparr>uuid = [], now = 0\<rparr> (Ev_user (JStr [0x5A]) (JStr bob) JNull) example) 1)
        = Some lobby"
proof -
  define s' where "s' = on_message 1 \<lparr>uuid = [], now = 0\<rparr> (Ev_user (JStr [0x5A]) (JStr bob) JNull) example"
  note T = identity_claim_frame [of 1 "\<lparr>uuid = [], now = 0\<rparr>" "JStr [0x5A]" "JStr bob" JNull example,
      folded s'_def]
  have c: "trim [0x5A] = [0x5A]"
    by (simp add: trim_def is_space_def)
  have u: "users_of s' lobby = users_of example lobby"
    using T by blast
  have r: "currentRoom (heap s' 1) = currentRoom (heap example 1)"
    using T by blast
  have h: "map_of (clients s') bob = None" "map_of (clients s') [0x5A] = Some 1"
    by (simp_all add: s'_def on_message_def handleMessage_def set_user_def c Let_def bob_def
        update_conv' delete_conv')
  show ?thesis
    using u r h unfolding s'_def by (simp add: users_of_def)
qed

section \<open>Switching rooms\<close>

lemma sent_leave_current_eq:
  assumes "currentRoom (heap s c) = Some A" and "A \<noteq> []" and "map_of (rooms s) A = Some roomA"
  shows "sent (leave_current c s) = sent s @
      map (\<lambda>x. (x, UserLeft (id_c (heap s c)) (name_c (heap s c)) (avatar_c (heap s c))
          (length (set_delete (id_c (heap s c)) (users roomA)))))
        (recipients (clients s) (heap s) None (set_delete (id_c (heap s c)) (users roomA))) @
      map (\<lambda>x. (x, RoomUserCount A (length (set_delete (id_c (heap s c)) (users roomA)))))
        (recipients (clients s) (heap s) None (set_delete (id_c (heap s c)) (users roomA)))"
  using assms
  by (simp add: leave_current_def Let_def sent_broadcastToRoom sent_broadcastRoomUserCount
      room_size_users_of users_of_update_room) (simp add: users_of_def)

lemma length_set_delete:
  "distinct xs \<Longrightarrow> x \<in> set xs \<Longrightarrow> Suc (length (set_delete x xs)) = length xs"
  by (induction xs) (auto simp add: set_delete_def)

lemma set_delete_not_member [simp]: "x \<notin> set (set_delete x xs)"
  by (simp add: set_delete_def)

text \<open>
  C4, as the code has it. A connection whose \<open>currentRoom\<close> is \<open>A\<close> and whose id
  is in the members of \<open>A\<close> joins another room \<open>B\<close>. Afterwards its id is a member of
  \<open>B\<close> and not of \<open>A\<close>, its \<open>currentRoom\<close> is \<open>B\<close> (the field holds one room
  at any time), and \<open>A\<close> has exactly one member less. The calls of \<open>ws.send\<close> are, in
  this order: \<open>user-left\<close> and then \<open>room-user-count\<close> to the open members that are
  left in \<open>A\<close>, with the count of \<open>A\<close> after the removal; \<open>user-joined\<close> to the
  open members of \<open>B\<close> but the joiner; \<open>room-joined\<close> to the joiner;
  \<open>room-user-count\<close> to the open members of \<open>B\<close>. The calls about \<open>B\<close> are made
  when \<open>joinRoom\<close> returns, which it does when the names of the joiner and of \<open>B\<close>
  have a conversion to a string; when line 412 throws, the memberships, the
  \<open>currentRoom\<close> and the notices to \<open>A\<close> are the same and nothing is sent about
  \<open>B\<close>.
\<close>

theorem switch_room:
  assumes "rooms_get s roomId = Some (B, roomB)" and "isPrivate roomB \<longrightarrow> password roomB = pw"
    and "currentRoom (heap s c) = Some A" and "A \<noteq> B" and "A \<noteq> []"
    and "map_of (rooms s) A = Some roomA" and "id_c (heap s c) \<in> set (users roomA)"
    and "distinct (users roomA)"
  shows "id_c (heap s c) \<in> set (users_of (state_of (joinRoom c roomId pw s)) B)
    \<and> id_c (heap s c) \<notin> set (users_of (state_of (joinRoom c roomId pw s)) A)
    \<and> currentRoom (heap (state_of (joinRoom c roomId pw s)) c) = Some B
    \<and> id_c (heap (state_of (joinRoom c roomId pw s)) c) = id_c (heap s c)
    \<and> Suc (length (users_of (state_of (joinRoom c roomId pw s)) A)) = length (users_of s A)
    \<and> users_of (state_of (joinRoom c roomId pw s)) A = set_delete (id_c (heap s c)) (users roomA)
    \<and> users_of (state_of (joinRoom c roomId pw s)) B = set_add (id_c (heap s c)) (users roomB)
    \<and> (\<exists>s'. joinRoom c roomId pw s = Done s')
        = (printable (name_c (heap s c)) \<and> printable (name_r roomB))
    \<and> new_sends s (state_of (joinRoom c roomId pw s)) =
      map (\<lambda>x. (x, UserLeft (id_c (heap s c)) (name_c (heap s c)) (avatar_c (heap s c))
          (length (users roomA) - 1)))
        (recipients (clients s) (heap s) None (set_delete (id_c (heap s c)) (users roomA))) @
      map (\<lambda>x. (x, RoomUserCount A (length (users roomA) - 1)))
        (recipients (clients s) (heap s) None (set_delete (id_c (heap s c)) (users roomA))) @
      (if printable (name_c (heap s c)) \<and> printable (name_r roomB)
       then map (\<lambda>x. (x, UserJoined (id_c (heap s c)) (name_c (heap s c)) (avatar_c (heap s c))
          (length (set_add (id_c (heap s c)) (users roomB)))))
        (recipients (clients s) ((heap s)(c := (heap s c)\<lparr>currentRoom := Some B\<rparr>))
          (Some (id_c (heap s c))) (set_add (id_c (heap s c)) (users roomB))) @
      [(c, RoomJoined B (name_r roomB) (creatorId roomB)
           (js_or (creatorName roomB) (JStr unknown_name)) (isPrivate roomB)
           (length (set_add (id_c (heap s c)) (users roomB)))
           (drop (length (history roomB) - 50) (history roomB)))] @
      map (\<lambda>x. (x, RoomUserCount B (length (set_add (id_c (heap s c)) (users roomB)))))
        (recipients (clients s) ((heap s)(c := (heap s c)\<lparr>currentRoom := Some B\<rparr>))
          None (set_add (id_c (heap s c)) (users roomB)))
       else [])"
proof -
  have b: "map_of (rooms s) B = Some roomB"
    using assms(1) by (simp add: rooms_get_SomeD)
  have ua: "users_of s A = users roomA" and ub: "users_of s B = users roomB"
    by (simp_all add: users_of_def assms(6) b)
  have la: "users_of (leave_current c s) A = set_delete (id_c (heap s c)) (users roomA)"
    by (simp add: users_of_leave_current assms(3,5) ua)
  have lb: "users_of (leave_current c s) B = users roomB"
    using assms(4) by (simp add: users_of_leave_current assms(3) ub)
  have ja: "users_of (state_of (joinRoom c roomId pw s)) A = set_delete (id_c (heap s c)) (users roomA)"
    using assms(4) by (simp add: users_of_joinRoom [OF assms(1,2)] la)
  have jb: "users_of (state_of (joinRoom c roomId pw s)) B = set_add (id_c (heap s c)) (users roomB)"
    by (simp add: users_of_joinRoom [OF assms(1,2)] lb)
  have n: "Suc (length (set_delete (id_c (heap s c)) (users roomA))) = length (users roomA)"
    by (rule length_set_delete [OF assms(8,7)])
  then have n': "length (set_delete (id_c (heap s c)) (users roomA)) = length (users roomA) - 1"
    by simp
  have h: "heap (state_of (joinRoom c roomId pw s)) = (heap s)(c := (heap s c)\<lparr>currentRoom := Some B\<rparr>)"
    by (rule joinRoom_frame(2) [OF assms(1,2)])
  have d: "(\<exists>s'. joinRoom c roomId pw s = Done s')
        = (printable (name_c (heap s c)) \<and> printable (name_r roomB))"
  proof (cases "printable (name_c (heap s c)) \<and> printable (name_r roomB)")
    case True
    then show ?thesis
      using joinRoom_Done [OF assms(1,2), of c] by simp
  next
    case False
    then show ?thesis
      using joinRoom_Raised [OF assms(1,2) False] by simp
  qed
  have sn: "new_sends s (state_of (joinRoom c roomId pw s)) =
      map (\<lambda>x. (x, UserLeft (id_c (heap s c)) (name_c (heap s c)) (avatar_c (heap s c))
          (length (users roomA) - 1)))
        (recipients (clients s) (heap s) None (set_delete (id_c (heap s c)) (users roomA))) @
      map (\<lambda>x. (x, RoomUserCount A (length (users roomA) - 1)))
        (recipients (clients s) (heap s) None (set_delete (id_c (heap s c)) (users roomA))) @
      (if printable (name_c (heap s c)) \<and> printable (name_r roomB)
       then map (\<lambda>x. (x, UserJoined (id_c (heap s c)) (name_c (heap s c)) (avatar_c (heap s c))
          (length (set_add (id_c (heap s c)) (users roomB)))))
        (recipients (clients s) ((heap s)(c := (heap s c)\<lparr>currentRoom := Some B\<rparr>))
          (Some (id_c (heap s c))) (set_add (id_c (heap s c)) (users roomB))) @
      [(c, RoomJoined B (name_r roomB) (creatorId roomB)
           (js_or (creatorName roomB) (JStr unknown_name)) (isPrivate roomB)
           (length (set_add (id_c (heap s c)) (users roomB)))
           (drop (length (history roomB) - 50) (history roomB)))] @
      map (\<lambda>x. (x, RoomUserCount B (length (set_add (id_c (heap s c)) (users roomB)))))
        (recipients (clients s) ((heap s)(c := (heap s c)\<lparr>currentRoom := Some B\<rparr>))
          None (set_add (id_c (heap s c)) (users roomB)))
       else [])"
  proof (cases "printable (name_c (heap s c)) \<and> printable (name_r roomB)")
    case True
    then have p1: "printable (name_c (heap s c))" and p2: "printable (name_r roomB)"
      by simp_all
    show ?thesis
      by (simp add: new_sends_def sent_joinRoom [OF assms(1,2) p1 p2]
          sent_leave_current_eq [OF assms(3,5,6)] lb n' True)
  next
    case False
    show ?thesis
      using False
      by (simp add: new_sends_def sent_joinRoom_Raised [OF assms(1,2) False]
          sent_leave_current_eq [OF assms(3,5,6)] n')
  qed
  show ?thesis
    using n d by (simp add: ja jb h ua sn)
qed

theorem switch_room_witness:
  "rooms_get example (JStr books) = Some (books, example_books)
    \<and> password example_books = JStr secret
    \<and> currentRoom (heap example 1) = Some lobby \<and> lobby \<noteq> books \<and> lobby \<noteq> []
    \<and> map_of (rooms example) lobby = Some (defaultRoom\<lparr>users := [bob]\<rparr>)
    \<and> id_c (heap example 1) \<in> set (users (defaultRoom\<lparr>users := [bob]\<rparr>))
    \<and> distinct (users (defaultRoom\<lparr>users := [bob]\<rparr>))
    \<and> users_of (state_of (joinRoom 1 (JStr books) (JStr secret) example)) lobby = []
    \<and> users_of (state_of (joinRoom 1 (JStr books) (JStr secret) example)) books = [alice, bob]
    \<and> currentRoom (heap (state_of (joinRoom 1 (JStr books) (JStr secret) example)) 1) = Some books"
proof -
  have h2: "isPrivate example_books \<longrightarrow> password example_books = JStr secret" by simp
  have h3: "currentRoom (heap example 1) = Some lobby" by simp
  have h4: "lobby \<noteq> books" and h5: "lobby \<noteq> []" by simp_all
  have h7: "id_c (heap example 1) \<in> set (users (defaultRoom\<lparr>users := [bob]\<rparr>))" by simp
  have h8: "distinct (users (defaultRoom\<lparr>users := [bob]\<rparr>))" by simp
  show ?thesis
    using switch_room [OF example_rooms_get(1) h2 h3 h4 h5 example_rooms(2) h7 h8]
    by (simp add: set_add_def set_delete_def)
qed

section \<open>The members of a room and the registry\<close>

lemma tidy_members_registered: "tidy s live \<Longrightarrow> members_registered s"
proof -
  assume a: "tidy s live"
  have "m \<in> fst ` set (clients s)" if "m \<in> set (users_of s r)" for r m
  proof -
    from a that obtain c where "map_of (clients s) m = Some c"
      unfolding tidy_def by blast
    then have "(m, c) \<in> set (clients s)" by (rule map_of_SomeD)
    then show ?thesis by force
  qed
  then show ?thesis
    by (simp add: members_registered_def list_all_iff)
qed

lemma tidy_initial: "d \<noteq> [] \<Longrightarrow> tidy (initial d) []"
  by (simp add: tidy_def initial_def users_of_def defaultRoom_def)

text \<open>Steps that keep the registry, the objects' id and room, and the members.\<close>

lemma tidy_same:
  assumes "tidy s live" and "clients s' = clients s"
    and "\<And>c. id_c (heap s' c) = id_c (heap s c)"
    and "\<And>c. currentRoom (heap s' c) = currentRoom (heap s c)"
    and "\<And>r. users_of s' r = users_of s r"
    and "map_of (rooms s') [] = None"
  shows "tidy s' live"
  using assms by (simp add: tidy_def)

lemma tidyI:
  assumes "\<And>c. c \<in> set live \<Longrightarrow> map_of (clients s) (id_c (heap s c)) = Some c"
    and "\<And>k c. map_of (clients s) k = Some c \<Longrightarrow> id_c (heap s c) = k"
    and "\<And>r m. m \<in> set (users_of s r) \<Longrightarrow>
          \<exists>c. map_of (clients s) m = Some c \<and> currentRoom (heap s c) = Some r"
    and "map_of (rooms s) [] = None"
  shows "tidy s live"
  using assms unfolding tidy_def by blast

lemma tidyD:
  assumes "tidy s live"
  shows "c \<in> set live \<Longrightarrow> map_of (clients s) (id_c (heap s c)) = Some c"
    and "map_of (clients s) k = Some c \<Longrightarrow> id_c (heap s c) = k"
    and "m \<in> set (users_of s r) \<Longrightarrow>
          \<exists>c. map_of (clients s) m = Some c \<and> currentRoom (heap s c) = Some r"
    and "map_of (rooms s) [] = None"
    and "m \<in> set (users_of s r) \<Longrightarrow> r \<noteq> []"
  using assms unfolding tidy_def by (auto simp add: users_of_def)

lemma tidy_less_live: "tidy s live \<Longrightarrow> set live' \<subseteq> set live \<Longrightarrow> tidy s live'"
  unfolding tidy_def by blast

lemma state_of_then_display:
  "state_of (then_do (displayServerMessage vs s) f) = (if list_all printable vs then state_of (f s) else s)"
  by simp

text \<open>The members after the statements of lines 387-406 and 73-92.\<close>

lemma tidy_leave_member:
  assumes "tidy s live" and "c \<in> set live" and "m \<in> set (users_of (leave_current c s) r)"
  shows "\<exists>c'. c' \<noteq> c \<and> map_of (clients s) m = Some c' \<and> currentRoom (heap s c') = Some r
      \<and> m \<noteq> id_c (heap s c)"
proof -
  have m: "m \<in> set (users_of s r)"
    using assms(3) by (auto simp add: users_of_leave_current set_delete_def split: if_splits)
  then obtain c' where c': "map_of (clients s) m = Some c'" "currentRoom (heap s c') = Some r"
    using tidyD(3) [OF assms(1)] by blast
  have r: "r \<noteq> []"
    using tidyD(5) [OF assms(1) m] .
  have "c' \<noteq> c"
  proof
    assume "c' = c"
    then have "m = id_c (heap s c)" "currentRoom (heap s c) = Some r"
      using c' tidyD(2) [OF assms(1) c'(1)] by simp_all
    then show False
      using assms(3) r by (simp add: users_of_leave_current)
  qed
  moreover have "m \<noteq> id_c (heap s c)"
    using tidyD(1) [OF assms(1,2)] c'(1) \<open>c' \<noteq> c\<close> by auto
  ultimately show ?thesis using c' by blast
qed

lemma tidy_joinRoom:
  assumes "tidy s live" and "c \<in> set live"
  shows "tidy (state_of (joinRoom c roomId pw s)) live"
proof (cases "rooms_get s roomId")
  case None
  show ?thesis
    by (rule tidy_same [OF assms(1)]) (simp_all add: joinRoom_refused(1) [OF None] tidyD(4) [OF assms(1)])
next
  case (Some p)
  obtain rid room where p: "p = (rid, room)" by (cases p)
  note g = Some [unfolded p]
  show ?thesis
  proof (cases "isPrivate room \<and> password room \<noteq> pw")
    case True
    then have e: "joinRoom c roomId pw s = Done (ws_send c (Error wrong_password) s)"
      using g by (simp add: joinRoom_refused)
    show ?thesis
      by (rule tidy_same [OF assms(1)]) (simp_all add: e tidyD(4) [OF assms(1)])
  next
    case False
    then have ok: "isPrivate room \<longrightarrow> password room = pw" by simp
    define s' where "s' = state_of (joinRoom c roomId pw s)"
    note f = joinRoom_frame [OF g ok, of c, folded s'_def]
    note u = users_of_joinRoom [OF g ok, of c, folded s'_def]
    have reg: "map_of (clients s) (id_c (heap s c)) = Some c"
      by (rule tidyD(1) [OF assms])
    have "tidy s' live"
    proof (rule tidyI)
      fix c' assume "c' \<in> set live"
      then show "map_of (clients s') (id_c (heap s' c')) = Some c'"
        using tidyD(1) [OF assms(1)] by (auto simp add: f(1,2))
    next
      fix k c' assume "map_of (clients s') k = Some c'"
      then show "id_c (heap s' c') = k"
        using tidyD(2) [OF assms(1)] by (auto simp add: f(1,2))
    next
      fix r m assume m: "m \<in> set (users_of s' r)"
      show "\<exists>c'. map_of (clients s') m = Some c' \<and> currentRoom (heap s' c') = Some r"
      proof (cases "r = rid \<and> m = id_c (heap s c)")
        case True
        then show ?thesis using reg by (simp add: f(1,2))
      next
        case False
        then have "m \<in> set (users_of (leave_current c s) r)"
          using m by (auto simp add: u set_add_def split: if_splits)
        from tidy_leave_member [OF assms this] obtain c' where
          "c' \<noteq> c" "map_of (clients s) m = Some c'" "currentRoom (heap s c') = Some r"
          by blast
        then show ?thesis by (simp add: f(1,2))
      qed
    next
      show "map_of (rooms s') [] = None"
        by (simp add: f(4) tidyD(4) [OF assms(1)])
    qed
    then show ?thesis by (simp add: s'_def)
  qed
qed

lemma tidy_createRoom:
  assumes "tidy s live" and "c \<in> set live" and "rid \<noteq> []"
  shows "tidy (state_of (createRoom c dname pw rid s)) live"
proof (cases "isVerified (heap s c)")
  case False
  show ?thesis
    by (rule tidy_same [OF assms(1)]) (simp_all add: createRoom_refused [OF False] tidyD(4) [OF assms(1)])
next
  case True
  define newRoom where "newRoom = \<lparr>name_r = js_or dname (JStr unnamed_room),
        creatorId = Some (id_c (heap s c)),
        creatorName = name_c (heap s c), isPrivate = truthy pw, password = js_or pw JNull,
        users = [], history = []\<rparr>"
  define s1 where "s1 = s\<lparr>rooms := AList.update rid newRoom (rooms s)\<rparr>"
  define s2 where "s2 = broadcastRoomList s1"
  have c: "createRoom c dname pw rid s =
      (if printable (js_or dname (JStr unnamed_room)) \<and> printable (name_c (heap s c))
       then joinRoom c (JStr rid) pw s2 else Raised TypeError s1)"
    using True by (simp add: createRoom_def Let_def newRoom_def s2_def s1_def)
  have u: "users_of s1 r = (if r = rid then [] else users_of s r)" for r
    by (simp add: s1_def users_of_def update_conv' newRoom_def)
  have t1: "tidy s1 live"
  proof (rule tidyI)
    fix c' assume "c' \<in> set live"
    then show "map_of (clients s1) (id_c (heap s1 c')) = Some c'"
      using tidyD(1) [OF assms(1)] by (simp add: s1_def)
  next
    fix k c' assume "map_of (clients s1) k = Some c'"
    then show "id_c (heap s1 c') = k"
      using tidyD(2) [OF assms(1)] by (simp add: s1_def)
  next
    fix r m assume "m \<in> set (users_of s1 r)"
    then have "m \<in> set (users_of s r)"
      by (simp add: u split: if_splits)
    then show "\<exists>c'. map_of (clients s1) m = Some c' \<and> currentRoom (heap s1 c') = Some r"
      using tidyD(3) [OF assms(1)] by (simp add: s1_def)
  next
    show "map_of (rooms s1) [] = None"
      using assms(3) by (simp add: s1_def update_conv' tidyD(4) [OF assms(1)])
  qed
  have "tidy s2 live"
    by (rule tidy_same [OF t1]) (simp_all add: s2_def tidyD(4) [OF t1])
  then have "tidy (state_of (joinRoom c (JStr rid) pw s2)) live"
    by (rule tidy_joinRoom [OF _ assms(2)])
  then show ?thesis
    using t1 by (simp add: c)
qed

lemma force_leave_heap:
  "id_c (heap (force_leave r m s) c) = id_c (heap s c)"
  "currentRoom (heap (force_leave r m s) c) =
     (if map_of (clients s) m = Some c then None else currentRoom (heap s c))"
  by (simp_all add: force_leave_def split: option.splits)

lemma fold_force_leave_heap:
  "id_c (heap (fold (force_leave r) ms s) c) = id_c (heap s c)"
  "currentRoom (heap (fold (force_leave r) ms s) c) =
     (if \<exists>m \<in> set ms. map_of (clients s) m = Some c then None else currentRoom (heap s c))"
  by (induction ms arbitrary: s) (auto simp add: force_leave_heap)

lemma users_of_delete:
  "users_of (s\<lparr>rooms := AList.delete rid (rooms s)\<rparr>) r = (if r = rid then [] else users_of s r)"
  by (simp add: users_of_def delete_conv')

lemma tidy_deleteRoom:
  assumes "tidy s live"
  shows "tidy (state_of (deleteRoom c roomId d s)) live"
proof (cases "rooms_get s roomId")
  case None
  show ?thesis
    by (rule tidy_same [OF assms(1)]) (simp_all add: deleteRoom_refused(1) [OF None] tidyD(4) [OF assms(1)])
next
  case (Some p)
  obtain rid room where p: "p = (rid, room)" by (cases p)
  note g = Some [unfolded p]
  have r: "map_of (rooms s) rid = Some room"
    using g by (simp add: rooms_get_SomeD)
  show ?thesis
  proof (cases "not_the_creator room d (id_c (heap s c)) \<or> rid = defaultRoom_id s
      \<or> \<not> (printable (name_c (heap s c)) \<and> printable (name_r room))")
    case True
    then have "deleteRoom c roomId d s = Done (ws_send c (Error not_creator) s)
        \<or> deleteRoom c roomId d s = Done (ws_send c (Error cannot_delete_default) s)
        \<or> deleteRoom c roomId d s = Raised TypeError s"
      using g by (auto simp add: deleteRoom_def)
    then show ?thesis
      using tidy_same [OF assms(1), of "ws_send c (Error not_creator) s"]
        tidy_same [OF assms(1), of "ws_send c (Error cannot_delete_default) s"] assms(1)
      by (auto simp add: tidyD(4) [OF assms(1)])
  next
    case False
    define s' where "s' = state_of (deleteRoom c roomId d s)"
    have cl: "clients s' = clients s"
      using False g by (simp add: s'_def deleteRoom_def Let_def)
    have ro: "rooms s' = AList.delete rid (rooms s)"
      using False g by (simp add: s'_def deleteRoom_def Let_def)
    have ii: "id_c (heap s' c') = id_c (heap s c')" for c'
      using False g by (simp add: s'_def deleteRoom_def Let_def fold_force_leave_heap)
    have cr: "currentRoom (heap s' c') =
        (if \<exists>m \<in> set (users room). map_of (clients s) m = Some c' then None
         else currentRoom (heap s c'))" for c'
      using False g by (simp add: s'_def deleteRoom_def Let_def fold_force_leave_heap)
    have us: "users_of s' r = (if r = rid then [] else users_of s r)" for r
      by (simp add: users_of_def ro delete_conv')
    have ur: "users_of s rid = users room"
      by (simp add: users_of_def r)
    have "tidy s' live"
    proof (rule tidyI)
      fix c' assume "c' \<in> set live"
      then show "map_of (clients s') (id_c (heap s' c')) = Some c'"
        using tidyD(1) [OF assms(1)] by (simp add: cl ii)
    next
      fix k c' assume "map_of (clients s') k = Some c'"
      then show "id_c (heap s' c') = k"
        using tidyD(2) [OF assms(1)] by (simp add: cl ii)
    next
      fix r m assume "m \<in> set (users_of s' r)"
      then have rr: "r \<noteq> rid" and m: "m \<in> set (users_of s r)"
        by (simp_all add: us split: if_splits)
      from tidyD(3) [OF assms(1) m] obtain c' where
        c': "map_of (clients s) m = Some c'" "currentRoom (heap s c') = Some r"
        by blast
      have "\<not> (\<exists>m' \<in> set (users room). map_of (clients s) m' = Some c')"
      proof
        assume "\<exists>m' \<in> set (users room). map_of (clients s) m' = Some c'"
        then obtain m' where m': "m' \<in> set (users_of s rid)" "map_of (clients s) m' = Some c'"
          using ur by auto
        from tidyD(3) [OF assms(1) m'(1)] m'(2) have "currentRoom (heap s c') = Some rid"
          by auto
        then show False using c'(2) rr by simp
      qed
      then show "\<exists>c'. map_of (clients s') m = Some c' \<and> currentRoom (heap s' c') = Some r"
        using c' by (simp add: cl cr)
    next
      show "map_of (rooms s') [] = None"
        by (simp add: ro delete_conv' tidyD(4) [OF assms(1)])
    qed
    then show ?thesis by (simp add: s'_def)
  qed
qed

lemma users_of_update_room_same:
  "(\<And>rm. users (f rm) = users rm) \<Longrightarrow> users_of (update_room k f s) r = users_of s r"
  by (simp add: users_of_def map_of_map_entry' split: option.splits)

lemma tidy_sendMessage:
  assumes "tidy s live"
  shows "tidy (sendMessage c did dcontent e s) live"
  by (rule tidy_same [OF assms(1)])
    (simp_all add: sendMessage_def Let_def users_of_update_room_same map_of_map_entry'
      tidyD(4) [OF assms(1)] split: option.splits)

lemma tidy_sendImage:
  assumes "tidy s live"
  shows "tidy (sendImage c dcontent e s) live"
  by (rule tidy_same [OF assms(1)])
    (simp_all add: sendImage_def Let_def users_of_update_room_same map_of_map_entry'
      tidyD(4) [OF assms(1)] split: option.splits)

lemma tidy_renameRoom:
  assumes "tidy s live"
  shows "tidy (state_of (renameRoom c roomId d newName s)) live"
proof (rule tidy_same [OF assms(1)])
  show "clients (state_of (renameRoom c roomId d newName s)) = clients s"
    by (auto simp add: renameRoom_def Let_def split: option.splits sum.splits bool.splits)
  show "id_c (heap (state_of (renameRoom c roomId d newName s)) c') = id_c (heap s c')" for c'
    by (auto simp add: renameRoom_def Let_def split: option.splits sum.splits bool.splits)
  show "currentRoom (heap (state_of (renameRoom c roomId d newName s)) c') = currentRoom (heap s c')" for c'
    by (auto simp add: renameRoom_def Let_def split: option.splits sum.splits bool.splits)
  show "users_of (state_of (renameRoom c roomId d newName s)) r = users_of s r" for r
    by (auto simp add: renameRoom_def Let_def users_of_update_room_same
        split: option.splits sum.splits bool.splits)
  show "map_of (rooms (state_of (renameRoom c roomId d newName s))) [] = None"
    using tidyD(4) [OF assms(1)]
    by (auto simp add: renameRoom_def Let_def map_of_map_entry'
        split: option.splits sum.splits bool.splits)
qed

lemma set_user_same_id:
  assumes "claimed_id did = Inr claim" and "claim = None \<or> claim = Some (id_c (heap s c))"
  shows "state_of (set_user c did dname davatar s) = update_client c
     (\<lambda>cl. cl\<lparr>id_c := id_c (heap s c), name_c := dname, avatar_c := davatar, isVerified := True\<rparr>) s"
  using assms by (auto simp add: set_user_def Let_def)

lemma set_user_new_id:
  assumes "claimed_id did = Inr (Some n)" and "n \<noteq> id_c (heap s c)"
  shows "state_of (set_user c did dname davatar s) = (update_client c
     (\<lambda>cl. cl\<lparr>id_c := n, name_c := dname, avatar_c := davatar, isVerified := True\<rparr>) s)
       \<lparr>clients := AList.update n c (AList.delete (id_c (heap s c)) (clients s))\<rparr>"
  using assms by (auto simp add: set_user_def Let_def)

lemma set_user_Raised:
  "claimed_id did = Inl err \<Longrightarrow> set_user c did dname davatar s = Raised err s"
  by (simp add: set_user_def)

lemma tidy_set_user:
  assumes "tidy s live" and "c \<in> set live"
    and "claims_first (Inbound c e (Ev_user did dname davatar)) s"
  shows "tidy (state_of (set_user c did dname davatar s)) live"
proof (cases "claimed_id did")
  case (Inl err)
  then show ?thesis using assms(1) by (simp add: set_user_Raised)
next
  case (Inr claim)
  note cl = Inr
  define s' where "s' = state_of (set_user c did dname davatar s)"
  have "tidy s' live"
  proof (cases "claim = None \<or> claim = Some (id_c (heap s c))")
    case True
    have s': "s' = update_client c
     (\<lambda>cl. cl\<lparr>id_c := id_c (heap s c), name_c := dname, avatar_c := davatar, isVerified := True\<rparr>) s"
      using set_user_same_id [OF cl True] by (simp add: s'_def)
    show ?thesis
      by (rule tidy_same [OF assms(1)]) (simp_all add: s' tidyD(4) [OF assms(1)])
  next
    case False
    then obtain n where n: "claim = Some n" "n \<noteq> id_c (heap s c)"
      by (cases claim) auto
    have s': "s' = (update_client c
     (\<lambda>cl. cl\<lparr>id_c := n, name_c := dname, avatar_c := davatar, isVerified := True\<rparr>) s)
       \<lparr>clients := AList.update n c (AList.delete (id_c (heap s c)) (clients s))\<rparr>"
      using set_user_new_id [OF cl [unfolded n(1)] n(2)] by (simp add: s'_def)
    have nr: "currentRoom (heap s c) = None" and fresh: "map_of (clients s) n = None"
      using assms(3) n by (simp_all add: cl map_of_eq_None_iff)
    have reg: "map_of (clients s) (id_c (heap s c)) = Some c"
      by (rule tidyD(1) [OF assms(1,2)])
    have m: "map_of (clients s') k =
        (if k = n then Some c else if k = id_c (heap s c) then None else map_of (clients s) k)" for k
      by (simp add: s' update_conv' delete_conv')
    have h: "heap s' c' = (if c' = c
        then (heap s c)\<lparr>id_c := n, name_c := dname, avatar_c := davatar, isVerified := True\<rparr>
        else heap s c')" for c'
      by (simp add: s')
    show ?thesis
    proof (rule tidyI)
      fix c' assume l: "c' \<in> set live"
      show "map_of (clients s') (id_c (heap s' c')) = Some c'"
      proof (cases "c' = c")
        case True
        then show ?thesis by (simp add: m h)
      next
        case False
        have k: "map_of (clients s) (id_c (heap s c')) = Some c'"
          by (rule tidyD(1) [OF assms(1) l])
        then have "id_c (heap s c') \<noteq> n" "id_c (heap s c') \<noteq> id_c (heap s c)"
          using fresh reg False by auto
        then show ?thesis using False k by (simp add: m h)
      qed
    next
      fix k c' assume a: "map_of (clients s') k = Some c'"
      show "id_c (heap s' c') = k"
      proof (cases "k = n")
        case True
        then show ?thesis using a by (simp add: m h)
      next
        case False
        then have k: "k \<noteq> id_c (heap s c)" "map_of (clients s) k = Some c'"
          using a by (simp_all add: m split: if_splits)
        then have "c' \<noteq> c"
          using tidyD(2) [OF assms(1) k(2)] by auto
        then show ?thesis
          using tidyD(2) [OF assms(1) k(2)] by (simp add: h)
      qed
    next
      fix r x assume "x \<in> set (users_of s' r)"
      then have x: "x \<in> set (users_of s r)"
        by (simp add: s' users_of_def)
      from tidyD(3) [OF assms(1) x] obtain c' where
        c': "map_of (clients s) x = Some c'" "currentRoom (heap s c') = Some r"
        by blast
      have ne: "c' \<noteq> c" using c'(2) nr by auto
      then have "x \<noteq> id_c (heap s c)" "x \<noteq> n"
        using c'(1) reg fresh by auto
      then show "\<exists>c'. map_of (clients s') x = Some c' \<and> currentRoom (heap s' c') = Some r"
        using c' ne by (simp add: m h)
    next
      show "map_of (rooms s') [] = None"
        by (simp add: s' tidyD(4) [OF assms(1)])
    qed
  qed
  then show ?thesis by (simp add: s'_def)
qed

lemma tidy_handleMessage:
  assumes "tidy s live" and "possible (Inbound c e data) s live"
    and "claims_first (Inbound c e data) s"
  shows "tidy (state_of (handleMessage c e data s)) live"
proof -
  have l: "c \<in> set live" using assms(2) by simp
  show ?thesis
  proof (cases data)
    case (Ev_user did dname davatar)
    then show ?thesis
      using tidy_set_user [OF assms(1) l assms(3) [unfolded Ev_user]]
      by (simp add: handleMessage_def)
  next
    case (Ev_create_room dname pw)
    then have "uuid e \<noteq> []" using assms(2) by simp
    then show ?thesis
      using tidy_createRoom [OF assms(1) l] assms(1)
      by (simp add: handleMessage_def Ev_create_room)
  next
    case (Ev_join_room roomId pw)
    then show ?thesis
      using tidy_joinRoom [OF assms(1) l] assms(1) by (simp add: handleMessage_def)
  next
    case (Ev_message did dcontent)
    then show ?thesis
      using tidy_sendMessage [OF assms(1)] assms(1) by (simp add: handleMessage_def)
  next
    case (Ev_image dcontent)
    then show ?thesis
      using tidy_sendImage [OF assms(1)] assms(1) by (simp add: handleMessage_def)
  next
    case (Ev_delete_room roomId d)
    then show ?thesis
      using tidy_deleteRoom [OF assms(1)] assms(1) by (simp add: handleMessage_def)
  next
    case (Ev_rename_room roomId d newName)
    then show ?thesis
      using tidy_renameRoom [OF assms(1)] assms(1) by (simp add: handleMessage_def)
  next
    case Ev_get_online_count
    have "tidy (updateOnlineCount s) live"
      by (rule tidy_same [OF assms(1)]) (simp_all add: users_of_def tidyD(4) [OF assms(1)])
    then show ?thesis
      using assms(1) by (simp add: handleMessage_def Ev_get_online_count)
  next
    case (Ev_unknown ty)
    then show ?thesis using assms(1) by (simp add: handleMessage_def)
  next
    case Ev_null
    then show ?thesis using assms(1) by (simp add: handleMessage_def)
  qed
qed

lemma tidy_on_message:
  assumes "tidy s live" and "possible (Inbound c e data) s live"
    and "claims_first (Inbound c e data) s"
  shows "tidy (on_message c e data s) live"
  using tidy_handleMessage [OF assms] assms(1)
  by (simp add: on_message_def)

lemma sendInitialData_frame [simp]:
  "rooms (sendInitialData c s) = rooms s"
  "clients (sendInitialData c s) = clients s"
  "heap (sendInitialData c s) = heap s"
  by (simp_all add: sendInitialData_def)

lemma tidy_on_connection:
  assumes "tidy s live" and "c \<notin> snd ` set (clients s)" and "t \<notin> fst ` set (clients s)"
  shows "tidy (on_connection c t s) (c # live)"
proof -
  define s' where "s' = on_connection c t s"
  have new: "c' \<noteq> c" if "map_of (clients s) k = Some c'" for k c'
  proof -
    from that have "(k, c') \<in> set (clients s)" by (rule map_of_SomeD)
    then have "c' \<in> snd ` set (clients s)" by force
    then show ?thesis using assms(2) by auto
  qed
  have fresh: "map_of (clients s) t = None"
    using assms(3) by (simp add: map_of_eq_None_iff)
  have m: "map_of (clients s') k = (if k = t then Some c else map_of (clients s) k)" for k
    by (simp add: s'_def on_connection_def Let_def update_conv')
  have i: "id_c (heap s' c') = (if c' = c then t else id_c (heap s c'))" for c'
    by (simp add: s'_def on_connection_def Let_def)
  have r: "currentRoom (heap s' c') = (if c' = c then None else currentRoom (heap s c'))" for c'
    by (simp add: s'_def on_connection_def Let_def)
  have u: "users_of s' r = users_of s r" for r
    by (simp add: s'_def on_connection_def Let_def users_of_def)
  have "tidy s' (c # live)"
  proof (rule tidyI)
    fix c' assume l: "c' \<in> set (c # live)"
    show "map_of (clients s') (id_c (heap s' c')) = Some c'"
    proof (cases "c' = c")
      case True
      then show ?thesis by (simp add: m i)
    next
      case False
      then have k: "map_of (clients s) (id_c (heap s c')) = Some c'"
        using l tidyD(1) [OF assms(1)] by simp
      then have "id_c (heap s c') \<noteq> t" using fresh by auto
      then show ?thesis using False k by (simp add: m i)
    qed
  next
    fix k c' assume a: "map_of (clients s') k = Some c'"
    show "id_c (heap s' c') = k"
    proof (cases "k = t")
      case True
      then show ?thesis using a by (simp add: m i)
    next
      case False
      then have k: "map_of (clients s) k = Some c'" using a by (simp add: m)
      then have "c' \<noteq> c" by (rule new)
      then show ?thesis using tidyD(2) [OF assms(1) k] by (simp add: i)
    qed
  next
    fix r x assume "x \<in> set (users_of s' r)"
    then have x: "x \<in> set (users_of s r)" by (simp add: u)
    from tidyD(3) [OF assms(1) x] obtain c' where
      c': "map_of (clients s) x = Some c'" "currentRoom (heap s c') = Some r"
      by blast
    have "c' \<noteq> c" using c'(1) by (rule new)
    moreover have "x \<noteq> t" using c'(1) fresh by auto
    ultimately show "\<exists>c'. map_of (clients s') x = Some c' \<and> currentRoom (heap s' c') = Some r"
      using c' by (simp add: m r)
  next
    show "map_of (rooms s') [] = None"
      by (simp add: s'_def on_connection_def Let_def tidyD(4) [OF assms(1)])
  qed
  then show ?thesis by (simp add: s'_def)
qed

lemma tidy_socket:
  assumes "tidy s live"
  shows "tidy (update_client c (\<lambda>cl. cl\<lparr>readyState := rs\<rparr>) s) live"
  by (rule tidy_same [OF assms]) (simp_all add: users_of_def tidyD(4) [OF assms])

lemma tidy_on_close:
  assumes "tidy s live" and "c \<in> set live"
  shows "tidy (state_of (on_close c s)) (removeAll c live)"
proof (cases "printable (name_c (heap s c))")
  case False
  then have "state_of (on_close c s) = s"
    by (simp add: on_close_def)
  then show ?thesis
    using tidy_less_live [OF assms(1), of "removeAll c live"] by simp
next
  case True
  define s' where "s' = state_of (on_close c s)"
  have reg: "map_of (clients s) (id_c (heap s c)) = Some c"
    by (rule tidyD(1) [OF assms])
  have m: "map_of (clients s') k = (if k = id_c (heap s c) then None else map_of (clients s) k)" for k
    using True by (simp add: s'_def on_close_def Let_def delete_conv')
  have h: "heap s' = heap s"
    using True by (simp add: s'_def on_close_def Let_def)
  have u: "users_of s' r = users_of (leave_current c s) r" for r
    using True by (simp add: s'_def on_close_def Let_def users_of_def)
  have "tidy s' (removeAll c live)"
  proof (rule tidyI)
    fix c' assume "c' \<in> set (removeAll c live)"
    then have l: "c' \<in> set live" "c' \<noteq> c" by simp_all
    have k: "map_of (clients s) (id_c (heap s c')) = Some c'"
      by (rule tidyD(1) [OF assms(1) l(1)])
    then have "id_c (heap s c') \<noteq> id_c (heap s c)"
      using reg l(2) by auto
    then show "map_of (clients s') (id_c (heap s' c')) = Some c'"
      using k by (simp add: m h)
  next
    fix k c' assume "map_of (clients s') k = Some c'"
    then have k: "k \<noteq> id_c (heap s c)" "map_of (clients s) k = Some c'"
      by (simp_all add: m split: if_splits)
    then show "id_c (heap s' c') = k"
      using tidyD(2) [OF assms(1) k(2)] by (simp add: h)
  next
    fix r x assume "x \<in> set (users_of s' r)"
    then have "x \<in> set (users_of (leave_current c s) r)" by (simp add: u)
    from tidy_leave_member [OF assms this] obtain c' where
      "c' \<noteq> c" "map_of (clients s) x = Some c'" "currentRoom (heap s c') = Some r"
      "x \<noteq> id_c (heap s c)"
      by blast
    then show "\<exists>c'. map_of (clients s') x = Some c' \<and> currentRoom (heap s' c') = Some r"
      by (simp add: m h)
  next
    show "map_of (rooms s') [] = None"
      using tidyD(4) [OF assms(1)] True by (simp add: s'_def on_close_def Let_def)
  qed
  then show ?thesis by (simp add: s'_def)
qed

lemma tidy_next_state:
  assumes "tidy s live" and "possible i s live" and "claims_first i s"
  shows "tidy (next_state i s) (live_after i live)"
proof (cases i)
  case (Connection c t)
  then show ?thesis using assms tidy_on_connection by simp
next
  case (Inbound c e data)
  then show ?thesis using assms tidy_on_message [of s live c e data] by simp
next
  case (Close c)
  then show ?thesis
    using assms tidy_on_close [OF tidy_socket [OF assms(1), of c CLOSED], of c] by simp
next
  case (Socket c rs)
  then show ?thesis using assms tidy_socket by simp
qed

lemma tidy_exec:
  "tidy s live \<Longrightarrow> exec True ins s live = Some s' \<Longrightarrow> \<exists>live'. tidy s' live'"
proof (induction ins arbitrary: s live)
  case Nil
  then show ?case by auto
next
  case (Cons i ins)
  from Cons.prems(2) have p: "possible i s live" "claims_first i s"
    and e: "exec True ins (next_state i s) (live_after i live) = Some s'"
    by (simp_all split: if_splits)
  show ?case
    by (rule Cons.IH [OF tidy_next_state [OF Cons.prems(1) p] e])
qed

text \<open>
  C9, as the code has it. In every state reached from the initial state by inputs the
  environment can produce, in which every identity claim that changes a connection's id
  is made while the connection has no current room and names an id that is not
  registered, the members of every room are registered ids. Connecting, such claims,
  joining, creating, deleting, renaming, posting and the cleanup at a close all keep the
  invariant \<open>tidy\<close>, which says more: each member is the id of a registered object
  whose \<open>currentRoom\<close> is that room.
\<close>

theorem members_registered_when_claims_first:
  assumes "d \<noteq> []" and "exec True ins (initial d) [] = Some s"
  shows "members_registered s"
proof -
  from tidy_exec [OF tidy_initial [OF assms(1)] assms(2)] obtain live where "tidy s live"
    by blast
  then show ?thesis by (rule tidy_members_registered)
qed

lemma initial_facts [simp]:
  "clients (initial d) = []" "rooms (initial d) = [(d, defaultRoom)]" "sent (initial d) = []"
  "defaultRoom_id (initial d) = d"
  by (simp_all add: initial_def)

lemma name_c_joinRoom [simp]:
  "name_c (heap (state_of (joinRoom c roomId pw s)) c') = name_c (heap s c')"
  by (simp add: joinRoom_def Let_def split: option.splits)

lemma name_c_set_user:
  "name_c (heap (state_of (set_user c did dname davatar s)) c') =
     (if c' = c \<and> (\<exists>claim. claimed_id did = Inr claim) then dname else name_c (heap s c'))"
  by (cases "claimed_id did") (simp_all add: set_user_def Let_def)

text \<open>What the handler does with the payload of a connection whose name is a string.\<close>

lemma on_message_named:
  assumes "name_c (heap s c) = JStr n"
  shows "on_message c e (Ev_user did dname davatar) s = state_of (set_user c did dname davatar s)"
    and "on_message c e (Ev_join_room (JStr r) pw) s = state_of (joinRoom c (JStr r) pw s)"
    and "on_message c e (Ev_create_room (JStr r) pw) s = state_of (createRoom c (JStr r) pw (uuid e) s)"
    and "on_message c e (Ev_delete_room (JStr r) d) s = state_of (deleteRoom c (JStr r) d s)"
    and "printable newName \<Longrightarrow> on_message c e (Ev_rename_room (JStr r) d newName) s
      = state_of (renameRoom c (JStr r) d newName s)"
  using assms by (simp_all add: on_message_def handleMessage_def js_or_def)

lemma arrived_facts [simp]:
  "clients arrived = [(temp, 0)]" "rooms arrived = [(lobby, defaultRoom)]"
  "id_c (heap arrived 0) = temp" "currentRoom (heap arrived 0) = None"
  "name_c (heap arrived 0) = JStr anonymous_name"
  by (simp_all add: arrived_def on_connection_def Let_def initial_def)

lemma trim_alice [simp]: "trim alice = alice" "alice \<noteq> []"
  by (simp_all add: alice_def trim_def is_space_def)

lemma claimed_alice [simp]: "claimed_id (JStr alice) = Inr (Some alice)"
  by simp

lemma temp_names [simp]: "temp \<noteq> alice" "alice \<noteq> temp"
  by (simp_all add: temp_def alice_def)

lemma join_lobby_arrived:
  "users_of (state_of (joinRoom 0 (JStr lobby) JUndefined arrived)) lobby = [temp]"
  "clients (state_of (joinRoom 0 (JStr lobby) JUndefined arrived)) = [(temp, 0)]"
  "map fst (rooms (state_of (joinRoom 0 (JStr lobby) JUndefined arrived))) = [lobby]"
  "id_c (heap (state_of (joinRoom 0 (JStr lobby) JUndefined arrived)) 0) = temp"
proof -
  have g: "rooms_get arrived (JStr lobby) = Some (lobby, defaultRoom)" by simp
  have ok: "isPrivate defaultRoom \<longrightarrow> password defaultRoom = JUndefined"
    by (simp add: defaultRoom_def)
  show "users_of (state_of (joinRoom 0 (JStr lobby) JUndefined arrived)) lobby = [temp]"
    by (simp add: users_of_joinRoom [OF g ok] users_of_leave_current)
      (simp add: users_of_def defaultRoom_def set_add_def)
  show "clients (state_of (joinRoom 0 (JStr lobby) JUndefined arrived)) = [(temp, 0)]"
    by (simp add: joinRoom_frame(1) [OF g ok])
  show "id_c (heap (state_of (joinRoom 0 (JStr lobby) JUndefined arrived)) 0) = temp"
    by (simp add: joinRoom_frame(2) [OF g ok])
  show "map fst (rooms (state_of (joinRoom 0 (JStr lobby) JUndefined arrived))) = [lobby]"
    using g ok by (simp add: joinRoom_def Let_def leave_current_def)
qed

text \<open>
  The claim as written fails: a client connects, joins the default room under its
  temporary id and then claims the id \<open>alice\<close>. The registry now holds \<open>alice\<close>
  only, and the default room still has the temporary id as a member.
\<close>

theorem stale_member_counterexample:
  "map_option members_registered
     (exec False [Connection 0 temp, join_lobby, claim_alice] (initial lobby) []) = Some False"
proof -
  define s2 where "s2 = state_of (joinRoom 0 (JStr lobby) JUndefined arrived)"
  define s3 where "s3 = state_of (set_user 0 (JStr alice) (JStr alice) JNull s2)"
  have n: "name_c (heap arrived 0) = JStr anonymous_name" "name_c (heap s2 0) = JStr anonymous_name"
    by (simp_all add: s2_def)
  have e: "exec False [Connection 0 temp, join_lobby, claim_alice] (initial lobby) [] = Some s3"
    by (simp add: join_lobby_def claim_alice_def s3_def arrived_def [symmetric]
        on_message_named [OF n(1)] s2_def [symmetric] on_message_named [OF n(2)])
  have c3: "clients s3 = [(alice, 0)]"
    by (simp add: s3_def set_user_def Let_def s2_def join_lobby_arrived)
  have r3: "rooms s3 = rooms s2"
    by (simp add: s3_def set_user_def Let_def s2_def join_lobby_arrived)
  have "\<not> members_registered s3"
    by (simp add: members_registered_def c3 r3 users_of_def [of s3] s2_def join_lobby_arrived(3))
      (simp add: users_of_def [symmetric] join_lobby_arrived(1))
  then show ?thesis unfolding e by simp
qed

theorem members_registered_when_claims_first_witness:
  "lobby \<noteq> []
    \<and> exec True [Connection 0 temp, claim_alice, join_lobby] (initial lobby) [] \<noteq> None
    \<and> map_option members_registered
        (exec True [Connection 0 temp, claim_alice, join_lobby] (initial lobby) []) = Some True"
proof -
  define s2 where "s2 = state_of (set_user 0 (JStr alice) (JStr alice) JNull arrived)"
  define s3 where "s3 = state_of (joinRoom 0 (JStr lobby) JUndefined s2)"
  have n: "name_c (heap arrived 0) = JStr anonymous_name" "name_c (heap s2 0) = JStr alice"
    by (simp_all add: s2_def name_c_set_user)
  have e: "exec True [Connection 0 temp, claim_alice, join_lobby] (initial lobby) [] = Some s3"
    by (simp add: join_lobby_def claim_alice_def s3_def arrived_def [symmetric]
        on_message_named [OF n(1)] s2_def [symmetric] on_message_named [OF n(2)])
  have l: "lobby \<noteq> []" by simp
  show ?thesis
    unfolding e using members_registered_when_claims_first [OF l e] by simp
qed

lemma names2 [simp]:
  "temp2 \<noteq> alice" "temp2 \<noteq> bob" "temp2 \<noteq> temp" "temp \<noteq> bob" "bob \<noteq> temp" "bob \<noteq> temp2"
  "trim bob = bob" "bob \<noteq> []" "temp \<noteq> temp2" "alice \<noteq> temp2"
  by (simp_all add: temp2_def alice_def bob_def temp_def trim_def is_space_def)

lemma two_rooms_facts:
  "clients two_rooms = [(alice, 0), (bob, 1)]"
  "map (\<lambda>(k, r). (k, users r)) (rooms two_rooms) = [(lobby, [temp]), (books, [bob])]"
  "map (\<lambda>(k, r). (k, isPrivate r)) (rooms two_rooms) = [(lobby, False), (books, False)]"
  "currentRoom (heap two_rooms 0) = Some lobby"
  "id_c (heap two_rooms 0) = alice"
  "name_c (heap two_rooms 0) = JStr alice"
  "map (\<lambda>(k, r). (k, name_r r)) (rooms two_rooms)
     = [(lobby, JStr public_room_name), (books, JStr books)]"
  by (simp_all add: two_rooms_def two_rooms_trace_def join_lobby_def claim_alice_def no_env_def
      on_connection_def on_message_def handleMessage_def set_user_def createRoom_def joinRoom_def
      leave_current_def Let_def initial_def defaultRoom_def set_add_def set_delete_def js_or_def)

text \<open>
  The claim C4 as written fails when the id of the connection is not among the members of
  its current room: the client of the run above, in the default room under its temporary
  id and renamed \<open>alice\<close>, joins the room \<open>books\<close> that bob created. The join
  succeeds, and the default room has as many members as before.
\<close>

theorem stale_switch_counterexample:
  "exec False two_rooms_trace (initial lobby) [] = Some two_rooms
    \<and> currentRoom (heap two_rooms 0) = Some lobby \<and> lobby \<noteq> books
    \<and> room_joined_replies 0 (new_sends two_rooms (state_of (joinRoom 0 (JStr books) JUndefined two_rooms))) \<noteq> []
    \<and> currentRoom (heap (state_of (joinRoom 0 (JStr books) JUndefined two_rooms)) 0) = Some books
    \<and> length (users_of (state_of (joinRoom 0 (JStr books) JUndefined two_rooms)) lobby)
        = length (users_of two_rooms lobby)"
proof -
  have e: "exec False two_rooms_trace (initial lobby) [] = Some two_rooms"
    unfolding two_rooms_def
    by (simp add: two_rooms_trace_def join_lobby_def claim_alice_def no_env_def
      on_connection_def on_message_def handleMessage_def set_user_def createRoom_def joinRoom_def
      leave_current_def Let_def initial_def defaultRoom_def set_add_def set_delete_def js_or_def)
  obtain room where g: "rooms_get two_rooms (JStr books) = Some (books, room)"
    and p: "\<not> isPrivate room" and p2: "printable (name_r room)"
    using two_rooms_facts(3,7) by (cases "rooms two_rooms") (auto simp add: map_eq_Cons_conv)
  have ok: "isPrivate room \<longrightarrow> password room = JUndefined"
    using p by simp
  have p1: "printable (name_c (heap two_rooms 0))"
    by (simp add: two_rooms_facts)
  have ul: "users_of two_rooms lobby = [temp]"
    using two_rooms_facts(2) by (auto simp add: users_of_def map_eq_Cons_conv)
  have "users_of (state_of (joinRoom 0 (JStr books) JUndefined two_rooms)) lobby = [temp]"
    by (simp add: users_of_joinRoom [OF g ok] users_of_leave_current two_rooms_facts ul
        set_delete_def)
  then show ?thesis
    using e by (simp add: replies_joinRoom [OF g ok p1 p2] joinRoom_frame(2) [OF g ok] ul
        two_rooms_facts)
qed

section \<open>Invariants of all runs\<close>

lemma soundD:
  assumes "sound s"
  shows "(k, c) \<in> set (clients s) \<Longrightarrow> id_c (heap s c) = k"
    and "distinct (users_of s r)"
    and "map_of (rooms s) [] = None"
    and "creator_of s (defaultRoom_id s) = Some None"
  using assms unfolding sound_def by auto

lemma sound_registry_ok: "sound s \<Longrightarrow> registry_ok s"
  by (auto simp add: sound_def registry_ok_def list_all_iff)

lemma sound_initial: "d \<noteq> [] \<Longrightarrow> sound (initial d)"
  by (simp add: sound_def initial_def users_of_def creator_of_def defaultRoom_def)

lemma sound_same:
  assumes "sound s" and "clients s' = clients s"
    and "\<And>c. id_c (heap s' c) = id_c (heap s c)"
    and "\<And>r. distinct (users_of s r) \<Longrightarrow> distinct (users_of s' r)"
    and "map_of (rooms s') [] = None"
    and "creator_of s' (defaultRoom_id s') = Some None"
  shows "sound s'"
  using assms unfolding sound_def by auto

lemma set_alist_update:
  "e \<in> set (AList.update k v al) \<Longrightarrow> e = (k, v) \<or> e \<in> set al"
  by (induction al) (auto split: if_splits)

lemma set_alist_delete:
  "e \<in> set (AList.delete k al) \<Longrightarrow> e \<in> set al \<and> fst e \<noteq> k"
  by (auto simp add: AList.delete_eq)

lemma distinct_set_add: "distinct xs \<Longrightarrow> distinct (set_add x xs)"
  by (simp add: set_add_def)

lemma distinct_set_delete: "distinct xs \<Longrightarrow> distinct (set_delete x xs)"
  by (simp add: set_delete_def distinct_removeAll)

lemma creator_of_frame [simp]:
  "creator_of (ws_send c ev s) = creator_of s"
  "creator_of (broadcastToRoom r ev ex s) = creator_of s"
  "creator_of (broadcastRoomUserCount r s) = creator_of s"
  "creator_of (broadcastRoomList s) = creator_of s"
  "creator_of (updateOnlineCount s) = creator_of s"
  "creator_of (update_client c f s) = creator_of s"
  by (simp_all add: creator_of_def fun_eq_iff)

lemma creator_of_update_room:
  "(\<And>rm. creatorId (f rm) = creatorId rm) \<Longrightarrow> creator_of (update_room k f s) r = creator_of s r"
  by (cases "map_of (rooms s) k") (simp_all add: creator_of_def map_of_map_entry')

lemma creator_of_leave_current [simp]: "creator_of (leave_current c s) r = creator_of s r"
  by (simp add: leave_current_def Let_def creator_of_update_room split: option.splits)

lemma creator_of_joinRoom [simp]: "creator_of (state_of (joinRoom c roomId pw s)) r = creator_of s r"
  by (simp add: joinRoom_def Let_def creator_of_update_room split: option.splits)

lemma frame_joinRoom [simp]:
  "clients (state_of (joinRoom c roomId pw s)) = clients s"
  "id_c (heap (state_of (joinRoom c roomId pw s)) c') = id_c (heap s c')"
  "defaultRoom_id (state_of (joinRoom c roomId pw s)) = defaultRoom_id s"
  "(map_of (rooms (state_of (joinRoom c roomId pw s))) r = None) = (map_of (rooms s) r = None)"
  by (simp_all add: joinRoom_def Let_def map_of_map_entry' split: option.splits)

lemma distinct_leave_current:
  "distinct (users_of s r) \<Longrightarrow> distinct (users_of (leave_current c s) r)"
  by (simp add: users_of_leave_current distinct_set_delete)

lemma distinct_joinRoom:
  assumes "\<And>r. distinct (users_of s r)"
  shows "distinct (users_of (state_of (joinRoom c roomId pw s)) r)"
proof (cases "rooms_get s roomId")
  case None
  then show ?thesis using assms by (simp add: joinRoom_refused)
next
  case (Some p)
  obtain rid room where p: "p = (rid, room)" by (cases p)
  note g = Some [unfolded p]
  show ?thesis
  proof (cases "isPrivate room \<and> password room \<noteq> pw")
    case True
    then show ?thesis using g assms by (simp add: joinRoom_refused)
  next
    case False
    then have ok: "isPrivate room \<longrightarrow> password room = pw" by simp
    show ?thesis
      using assms
      by (simp add: users_of_joinRoom [OF g ok] distinct_set_add distinct_leave_current)
  qed
qed

lemma sound_joinRoom:
  assumes "sound s"
  shows "sound (state_of (joinRoom c roomId pw s))"
  by (rule sound_same [OF assms])
    (simp_all add: distinct_joinRoom soundD(2,3,4) [OF assms])

lemma sound_createRoom:
  assumes "sound s" and "rid \<noteq> []" and "rid \<notin> fst ` set (rooms s)"
  shows "sound (state_of (createRoom c dname pw rid s))"
proof (cases "isVerified (heap s c)")
  case False
  show ?thesis
    by (rule sound_same [OF assms(1)])
      (simp_all add: createRoom_refused [OF False] soundD(3,4) [OF assms(1)] users_of_def)
next
  case True
  define newRoom where "newRoom = \<lparr>name_r = js_or dname (JStr unnamed_room),
        creatorId = Some (id_c (heap s c)),
        creatorName = name_c (heap s c), isPrivate = truthy pw, password = js_or pw JNull,
        users = [], history = []\<rparr>"
  define s1 where "s1 = s\<lparr>rooms := AList.update rid newRoom (rooms s)\<rparr>"
  define s2 where "s2 = broadcastRoomList s1"
  have c: "createRoom c dname pw rid s =
      (if printable (js_or dname (JStr unnamed_room)) \<and> printable (name_c (heap s c))
       then joinRoom c (JStr rid) pw s2 else Raised TypeError s1)"
    using True by (simp add: createRoom_def Let_def newRoom_def s2_def s1_def)
  have nd: "rid \<noteq> defaultRoom_id s"
  proof
    assume "rid = defaultRoom_id s"
    then have "map_of (rooms s) (defaultRoom_id s) = None"
      using assms(3) by (simp add: map_of_eq_None_iff)
    then show False
      using soundD(4) [OF assms(1)] by (simp add: creator_of_def)
  qed
  have t1: "sound s1"
  proof (rule sound_same [OF assms(1)])
    show "clients s1 = clients s" by (simp add: s1_def)
    show "id_c (heap s1 c') = id_c (heap s c')" for c' by (simp add: s1_def)
    show "distinct (users_of s1 r)" if "distinct (users_of s r)" for r
      using that by (simp add: s1_def users_of_def update_conv' newRoom_def)
    show "map_of (rooms s1) [] = None"
      using assms(2) by (simp add: s1_def update_conv' soundD(3) [OF assms(1)])
    show "creator_of s1 (defaultRoom_id s1) = Some None"
      using nd soundD(4) [OF assms(1)] by (simp add: s1_def creator_of_def update_conv')
  qed
  have "sound s2"
    by (rule sound_same [OF t1]) (simp_all add: s2_def soundD(3,4) [OF t1])
  then have "sound (state_of (joinRoom c (JStr rid) pw s2))"
    by (rule sound_joinRoom)
  then show ?thesis
    using t1 by (simp add: c)
qed

lemma sound_deleteRoom:
  assumes "sound s"
  shows "sound (state_of (deleteRoom c roomId d s))"
proof (cases "rooms_get s roomId")
  case None
  show ?thesis
    by (rule sound_same [OF assms(1)])
      (simp_all add: deleteRoom_refused(1) [OF None] soundD(3,4) [OF assms(1)] users_of_def)
next
  case (Some p)
  obtain rid room where p: "p = (rid, room)" by (cases p)
  note g = Some [unfolded p]
  show ?thesis
  proof (cases "not_the_creator room d (id_c (heap s c)) \<or> rid = defaultRoom_id s
      \<or> \<not> (printable (name_c (heap s c)) \<and> printable (name_r room))")
    case True
    then have "deleteRoom c roomId d s = Done (ws_send c (Error not_creator) s)
        \<or> deleteRoom c roomId d s = Done (ws_send c (Error cannot_delete_default) s)
        \<or> deleteRoom c roomId d s = Raised TypeError s"
      using g by (auto simp add: deleteRoom_def)
    then show ?thesis
      using sound_same [OF assms(1), of "ws_send c (Error not_creator) s"]
        sound_same [OF assms(1), of "ws_send c (Error cannot_delete_default) s"] assms(1)
      by (auto simp add: soundD(3,4) [OF assms(1)] users_of_def)
  next
    case False
    define s' where "s' = state_of (deleteRoom c roomId d s)"
    have cl: "clients s' = clients s"
      using False g by (simp add: s'_def deleteRoom_def Let_def)
    have ro: "rooms s' = AList.delete rid (rooms s)"
      using False g by (simp add: s'_def deleteRoom_def Let_def)
    have df: "defaultRoom_id s' = defaultRoom_id s"
      using False g by (simp add: s'_def deleteRoom_def Let_def)
    have ii: "id_c (heap s' c') = id_c (heap s c')" for c'
      using False g by (simp add: s'_def deleteRoom_def Let_def fold_force_leave_heap)
    have "sound s'"
    proof (rule sound_same [OF assms(1) cl ii])
      show "distinct (users_of s' r)" if "distinct (users_of s r)" for r
        using that by (simp add: users_of_def ro delete_conv')
      show "map_of (rooms s') [] = None"
        by (simp add: ro delete_conv' soundD(3) [OF assms(1)])
      show "creator_of s' (defaultRoom_id s') = Some None"
        using False soundD(4) [OF assms(1)] by (auto simp add: creator_of_def ro df delete_conv')
    qed
    then show ?thesis by (simp add: s'_def)
  qed
qed

lemma sound_sendMessage:
  assumes "sound s"
  shows "sound (sendMessage c did dcontent e s)"
  by (rule sound_same [OF assms(1)])
    (simp_all add: sendMessage_def Let_def users_of_update_room_same map_of_map_entry'
      creator_of_update_room soundD(3,4) [OF assms(1)] split: option.splits)

lemma sound_sendImage:
  assumes "sound s"
  shows "sound (sendImage c dcontent e s)"
  by (rule sound_same [OF assms(1)])
    (simp_all add: sendImage_def Let_def users_of_update_room_same map_of_map_entry'
      creator_of_update_room soundD(3,4) [OF assms(1)] split: option.splits)

lemma sound_renameRoom:
  assumes "sound s"
  shows "sound (state_of (renameRoom c roomId d newName s))"
proof (rule sound_same [OF assms(1)])
  show "clients (state_of (renameRoom c roomId d newName s)) = clients s"
    by (auto simp add: renameRoom_def Let_def split: option.splits sum.splits bool.splits)
  show "id_c (heap (state_of (renameRoom c roomId d newName s)) c') = id_c (heap s c')" for c'
    by (auto simp add: renameRoom_def Let_def split: option.splits sum.splits bool.splits)
  show "distinct (users_of (state_of (renameRoom c roomId d newName s)) r)"
    if "distinct (users_of s r)" for r
    using that
    by (auto simp add: renameRoom_def Let_def users_of_update_room_same
        split: option.splits sum.splits bool.splits)
  show "map_of (rooms (state_of (renameRoom c roomId d newName s))) [] = None"
    using soundD(3) [OF assms(1)]
    by (auto simp add: renameRoom_def Let_def map_of_map_entry'
        split: option.splits sum.splits bool.splits)
  show "creator_of (state_of (renameRoom c roomId d newName s))
      (defaultRoom_id (state_of (renameRoom c roomId d newName s))) = Some None"
    using soundD(4) [OF assms(1)]
    by (auto simp add: renameRoom_def Let_def creator_of_update_room
        split: option.splits sum.splits bool.splits)
qed

lemma sound_set_user:
  assumes "sound s"
  shows "sound (state_of (set_user c did dname davatar s))"
proof (cases "claimed_id did")
  case (Inl err)
  then show ?thesis using assms by (simp add: set_user_Raised)
next
  case (Inr claim)
  note cl = Inr
  define s' where "s' = state_of (set_user c did dname davatar s)"
  define n where "n = (case claim of None \<Rightarrow> id_c (heap s c) | Some i \<Rightarrow> i)"
  have h: "heap s' = (heap s)(c := (heap s c)\<lparr>id_c := n, name_c := dname, avatar_c := davatar,
      isVerified := True\<rparr>)"
    by (auto simp add: s'_def set_user_def Let_def cl n_def)
  have r: "rooms s' = rooms s" "defaultRoom_id s' = defaultRoom_id s"
    by (auto simp add: s'_def set_user_def Let_def cl)
  have m: "clients s' = (if id_c (heap s c) \<noteq> n
      then AList.update n c (AList.delete (id_c (heap s c)) (clients s)) else clients s)"
    by (auto simp add: s'_def set_user_def Let_def cl n_def)
  have reg: "id_c (heap s' (snd e)) = fst e" if e: "e \<in> set (clients s')" for e
  proof (cases "id_c (heap s c) = n")
    case True
    then have "e \<in> set (clients s)" using e by (simp add: m)
    then show ?thesis
      using soundD(1) [OF assms(1), of "fst e" "snd e"] True by (auto simp add: h)
  next
    case False
    then have "e = (n, c) \<or> (e \<in> set (clients s) \<and> fst e \<noteq> id_c (heap s c))"
      using e set_alist_update [of e n c] set_alist_delete [of e "id_c (heap s c)" "clients s"]
      by (auto simp add: m)
    then show ?thesis
    proof
      assume "e = (n, c)"
      then show ?thesis by (simp add: h)
    next
      assume a: "e \<in> set (clients s) \<and> fst e \<noteq> id_c (heap s c)"
      then have "id_c (heap s (snd e)) = fst e"
        using soundD(1) [OF assms(1), of "fst e" "snd e"] by auto
      moreover from this a have "snd e \<noteq> c" by auto
      ultimately show ?thesis by (simp add: h)
    qed
  qed
  have "sound s'"
    unfolding sound_def
    using reg soundD(2,3,4) [OF assms(1)]
    by (auto simp add: users_of_def creator_of_def r)
  then show ?thesis by (simp add: s'_def)
qed

lemma sound_on_connection:
  assumes "sound s" and "c \<notin> snd ` set (clients s)"
  shows "sound (on_connection c t s)"
proof -
  define s' where "s' = on_connection c t s"
  have m: "clients s' = AList.update t c (clients s)"
    by (simp add: s'_def on_connection_def Let_def)
  have i: "id_c (heap s' c') = (if c' = c then t else id_c (heap s c'))" for c'
    by (simp add: s'_def on_connection_def Let_def)
  have r: "rooms s' = rooms s" "defaultRoom_id s' = defaultRoom_id s"
    by (simp_all add: s'_def on_connection_def Let_def sendInitialData_def)
  have reg: "id_c (heap s' (snd e)) = fst e" if "e \<in> set (clients s')" for e
  proof -
    from that have "e = (t, c) \<or> e \<in> set (clients s)"
      using set_alist_update [of e t c] by (simp add: m)
    then show ?thesis
    proof
      assume "e = (t, c)"
      then show ?thesis by (simp add: i)
    next
      assume a: "e \<in> set (clients s)"
      then have "id_c (heap s (snd e)) = fst e"
        using soundD(1) [OF assms(1), of "fst e" "snd e"] by auto
      moreover from a assms(2) have "snd e \<noteq> c" by auto
      ultimately show ?thesis by (simp add: i)
    qed
  qed
  have "sound s'"
    unfolding sound_def
    using reg soundD(2,3,4) [OF assms(1)]
    by (auto simp add: users_of_def creator_of_def r)
  then show ?thesis by (simp add: s'_def)
qed

lemma sound_socket:
  assumes "sound s"
  shows "sound (update_client c (\<lambda>cl. cl\<lparr>readyState := rs\<rparr>) s)"
  by (rule sound_same [OF assms]) (simp_all add: users_of_def soundD(3,4) [OF assms])

lemma sound_on_close:
  assumes "sound s"
  shows "sound (state_of (on_close c s))"
proof (cases "printable (name_c (heap s c))")
  case False
  then show ?thesis using assms by (simp add: on_close_def)
next
  case True
  define s' where "s' = state_of (on_close c s)"
  have m: "clients s' = AList.delete (id_c (heap s c)) (clients s)"
    using True by (simp add: s'_def on_close_def Let_def)
  have i: "id_c (heap s' c') = id_c (heap s c')" for c'
    using True by (simp add: s'_def on_close_def Let_def)
  have d: "defaultRoom_id s' = defaultRoom_id s"
    using True by (simp add: s'_def on_close_def Let_def)
  have u: "users_of s' r = users_of (leave_current c s) r" for r
    using True by (simp add: s'_def on_close_def Let_def users_of_def)
  have cr: "creator_of s' r = creator_of s r" for r
  proof -
    have "creator_of s' r = creator_of (leave_current c s) r"
      using True by (simp add: s'_def on_close_def Let_def creator_of_def)
    then show ?thesis by simp
  qed
  have n: "map_of (rooms s') [] = None"
  proof -
    have "map_of (rooms s') [] = map_of (rooms (leave_current c s)) []"
      using True by (simp add: s'_def on_close_def Let_def)
    then show ?thesis using soundD(3) [OF assms] by simp
  qed
  have reg: "id_c (heap s' (snd e)) = fst e" if "e \<in> set (clients s')" for e
  proof -
    from that have a: "e \<in> set (clients s)" "fst e \<noteq> id_c (heap s c)"
      using set_alist_delete [of e "id_c (heap s c)" "clients s"] by (simp_all add: m)
    then have "id_c (heap s (snd e)) = fst e"
      using soundD(1) [OF assms(1), of "fst e" "snd e"] by auto
    then show ?thesis by (simp add: i)
  qed
  have "sound s'"
    unfolding sound_def
    using reg n soundD(2,4) [OF assms(1)]
    by (auto simp add: u cr d distinct_leave_current)
  then show ?thesis by (simp add: s'_def)
qed

lemma sound_handleMessage:
  assumes "sound s" and "possible (Inbound c e data) s live"
  shows "sound (state_of (handleMessage c e data s))"
proof (cases data)
  case (Ev_user did dname davatar)
  then show ?thesis
    using sound_set_user [OF assms(1)] by (simp add: handleMessage_def)
next
  case (Ev_create_room dname pw)
  then have "uuid e \<noteq> []" "uuid e \<notin> fst ` set (rooms s)" using assms(2) by simp_all
  then show ?thesis
    using sound_createRoom [OF assms(1)] assms(1)
    by (simp add: handleMessage_def Ev_create_room)
next
  case (Ev_join_room roomId pw)
  then show ?thesis
    using sound_joinRoom [OF assms(1)] assms(1) by (simp add: handleMessage_def)
next
  case (Ev_message did dcontent)
  then show ?thesis
    using sound_sendMessage [OF assms(1)] assms(1) by (simp add: handleMessage_def)
next
  case (Ev_image dcontent)
  then show ?thesis
    using sound_sendImage [OF assms(1)] assms(1) by (simp add: handleMessage_def)
next
  case (Ev_delete_room roomId d)
  then show ?thesis
    using sound_deleteRoom [OF assms(1)] assms(1) by (simp add: handleMessage_def)
next
  case (Ev_rename_room roomId d newName)
  then show ?thesis
    using sound_renameRoom [OF assms(1)] assms(1) by (simp add: handleMessage_def)
next
  case Ev_get_online_count
  have "sound (updateOnlineCount s)"
    by (rule sound_same [OF assms(1)]) (simp_all add: users_of_def soundD(3,4) [OF assms(1)])
  then show ?thesis
    using assms(1) by (simp add: handleMessage_def Ev_get_online_count)
next
  case (Ev_unknown ty)
  then show ?thesis using assms(1) by (simp add: handleMessage_def)
next
  case Ev_null
  then show ?thesis using assms(1) by (simp add: handleMessage_def)
qed

lemma sound_on_message:
  assumes "sound s" and "possible (Inbound c e data) s live"
  shows "sound (on_message c e data s)"
  using sound_handleMessage [OF assms] assms(1)
  by (simp add: on_message_def)

lemma sound_next_state:
  assumes "sound s" and "possible i s live"
  shows "sound (next_state i s)"
proof (cases i)
  case (Connection c t)
  then show ?thesis using assms sound_on_connection by simp
next
  case (Inbound c e data)
  then show ?thesis using assms sound_on_message [of s c e data live] by simp
next
  case (Close c)
  then show ?thesis using sound_on_close [OF sound_socket [OF assms(1), of c CLOSED], of c] by simp
next
  case (Socket c rs)
  then show ?thesis using assms sound_socket by simp
qed

lemma sound_exec:
  "sound s \<Longrightarrow> exec strict ins s live = Some s' \<Longrightarrow> sound s'"
proof (induction ins arbitrary: s live)
  case Nil
  then show ?case by auto
next
  case (Cons i ins)
  from Cons.prems(2) have p: "possible i s live"
    and e: "exec strict ins (next_state i s) (live_after i live) = Some s'"
    by (simp_all split: if_splits)
  show ?case
    by (rule Cons.IH [OF sound_next_state [OF Cons.prems(1) p] e])
qed

text \<open>
  Every state the server can reach has the properties the theorems on broadcasting and on
  switching rooms assume.
\<close>

lemma reachable_sound:
  assumes "d \<noteq> []" and "exec strict ins (initial d) [] = Some s"
  shows "registry_ok s" and "distinct (users_of s r)" and "map_of (rooms s) [] = None"
    and "creator_of s (defaultRoom_id s) = Some None"
proof -
  have s: "sound s"
    by (rule sound_exec [OF sound_initial [OF assms(1)] assms(2)])
  show "registry_ok s" by (rule sound_registry_ok [OF s])
  show "distinct (users_of s r)" by (rule soundD(2) [OF s])
  show "map_of (rooms s) [] = None" by (rule soundD(3) [OF s])
  show "creator_of s (defaultRoom_id s) = Some None" by (rule soundD(4) [OF s])
qed

text \<open>
  C1. What \<open>deleteRoom\<close> does for the default room, in every state the server can
  reach: the room's \<open>creatorId\<close> is \<open>null\<close>, which no \<open>client.id\<close> equals, so
  the test of line 233 answers \<open>not-creator\<close> whoever asks and whatever creator id is
  claimed. The test of line 242 (\<open>cannot-delete-default\<close>) is never reached. The
  default room stays in the registry.
\<close>

theorem default_room_delete_answers_not_creator:
  assumes "d \<noteq> []" and "exec False ins (initial d) [] = Some s"
  shows "deleteRoom c (JStr (defaultRoom_id s)) dcreatorId s = Done (ws_send c (Error not_creator) s)
    \<and> new_sends s (state_of (deleteRoom c (JStr (defaultRoom_id s)) dcreatorId s))
        = [(c, Error not_creator)]
    \<and> map_of (rooms (state_of (deleteRoom c (JStr (defaultRoom_id s)) dcreatorId s)))
        (defaultRoom_id s) \<noteq> None"
proof -
  from reachable_sound(4) [OF assms] obtain room where
    "map_of (rooms s) (defaultRoom_id s) = Some room" "creatorId room = None"
    by (auto simp add: creator_of_def)
  then show ?thesis
    by (simp add: deleteRoom_def not_the_creator_def new_sends_def)
qed

lemma two_rooms_exec: "exec False two_rooms_trace (initial lobby) [] = Some two_rooms"
  unfolding two_rooms_def
  by (simp add: two_rooms_trace_def join_lobby_def claim_alice_def no_env_def
      on_connection_def on_message_def handleMessage_def set_user_def createRoom_def joinRoom_def
      leave_current_def Let_def initial_def defaultRoom_def set_add_def set_delete_def js_or_def)

lemma two_rooms_default [simp]: "defaultRoom_id two_rooms = lobby"
  by (simp add: two_rooms_def two_rooms_trace_def join_lobby_def claim_alice_def no_env_def
      on_connection_def on_message_def handleMessage_def set_user_def createRoom_def joinRoom_def
      leave_current_def Let_def initial_def sendInitialData_def)

theorem default_room_delete_answers_not_creator_witness:
  "lobby \<noteq> [] \<and> exec False two_rooms_trace (initial lobby) [] = Some two_rooms
    \<and> new_sends two_rooms (state_of (deleteRoom 1 (JStr lobby) JNull two_rooms))
        = [(1, Error not_creator)]
    \<and> map_of (rooms (state_of (deleteRoom 1 (JStr lobby) JNull two_rooms))) lobby \<noteq> None"
proof -
  have l: "lobby \<noteq> []" by simp
  show ?thesis
    using default_room_delete_answers_not_creator [OF l two_rooms_exec, of 1 JNull,
        unfolded two_rooms_default] l two_rooms_exec
    by blast
qed

section \<open>Where the claims fail, in a state the server reaches\<close>

lemma two_rooms_more:
  "map (\<lambda>(k, r). (k, creatorId r)) (rooms two_rooms) = [(lobby, None), (books, Some bob)]"
  "id_c (heap two_rooms (Suc 0)) = bob" "isVerified (heap two_rooms (Suc 0))"
  "currentRoom (heap two_rooms (Suc 0)) = Some books"
  "name_c (heap two_rooms (Suc 0)) = JStr bob"
  by (simp_all add: two_rooms_def two_rooms_trace_def join_lobby_def claim_alice_def no_env_def
      on_connection_def on_message_def handleMessage_def set_user_def createRoom_def joinRoom_def
      leave_current_def Let_def initial_def defaultRoom_def set_add_def set_delete_def js_or_def)




text \<open>
  C8 as written fails when the claimed id is registered: bob claims the id \<open>alice\<close>,
  and the entry of the registry that held alice's object now holds bob's; alice's object
  is registered under no id.
\<close>

theorem claim_overwrites_counterexample:
  "exec False two_rooms_trace (initial lobby) [] = Some two_rooms
    \<and> map_of (clients two_rooms) alice = Some 0
    \<and> map_of (clients (on_message 1 no_env (Ev_user (JStr alice) (JStr bob) JNull) two_rooms)) alice
        = Some 1
    \<and> 0 \<notin> snd ` set (clients (on_message 1 no_env (Ev_user (JStr alice) (JStr bob) JNull) two_rooms))"
  using two_rooms_exec
  by (simp add: two_rooms_facts two_rooms_more on_message_def handleMessage_def set_user_def Let_def)

text \<open>
  The second half of the discipline is needed as well: a claim made before any join, of
  an id that is registered, takes the other connection's place in the registry, and the
  close of the claimant then removes the id from the registry while the first connection
  is still a member of the default room.
\<close>

lemma colliding_claim_breaks_membership:
  "map_option members_registered
     (exec False [Connection 0 temp, claim_alice, join_lobby, Connection 1 temp2,
        Inbound 1 no_env (Ev_user (JStr alice) (JStr bob) JNull), Close 1] (initial lobby) [])
   = Some False"
  by (simp add: join_lobby_def claim_alice_def no_env_def members_registered_def users_of_def
      on_connection_def on_message_def on_close_def handleMessage_def set_user_def joinRoom_def
      leave_current_def Let_def initial_def defaultRoom_def set_add_def set_delete_def)

text \<open>
  The same happens without any claim after a join, when two connections claim one id: both
  join the default room, the second leaves it for a room it creates and takes the shared
  id out of the members; the first, whose \<open>currentRoom\<close> is still the default room,
  then joins the new room and the default room has as many members as before.
\<close>

lemma colliding_claim_breaks_switch:
  "exec False shared_id_trace (initial lobby) [] = Some shared_id
    \<and> currentRoom (heap shared_id 0) = Some lobby
    \<and> currentRoom (heap (state_of (joinRoom 0 (JStr books) JUndefined shared_id)) 0) = Some books
    \<and> length (users_of (state_of (joinRoom 0 (JStr books) JUndefined shared_id)) lobby)
        = length (users_of shared_id lobby)"
  by (simp add: shared_id_def shared_id_trace_def join_lobby_def claim_alice_def no_env_def
      users_of_def on_connection_def on_message_def handleMessage_def set_user_def joinRoom_def
      createRoom_def leave_current_def Let_def initial_def defaultRoom_def set_add_def
      set_delete_def js_or_def)

lemma odd_name_facts:
  "clients odd_name_state = [(alice, 0), (bob, 1)]"
  "map (\<lambda>(k, r). (k, isPrivate r, password r, name_r r, users r)) (rooms odd_name_state)
     = [(lobby, False, JNull, JStr public_room_name, []),
        (books, True, JStr secret, JStr books, [bob])]"
  "name_c (heap odd_name_state 0) = odd_name" "id_c (heap odd_name_state 0) = alice"
  "currentRoom (heap odd_name_state 0) = None" "isVerified (heap odd_name_state 0)"
  by (simp_all add: odd_name_state_def odd_name_trace_def odd_name_def no_env_def
      on_connection_def on_message_def handleMessage_def set_user_def createRoom_def joinRoom_def
      leave_current_def Let_def initial_def defaultRoom_def set_add_def set_delete_def js_or_def)

lemma odd_name_exec: "exec False odd_name_trace (initial lobby) [] = Some odd_name_state"
  unfolding odd_name_state_def
  by (simp add: odd_name_trace_def odd_name_def no_env_def
      on_connection_def on_message_def handleMessage_def set_user_def createRoom_def joinRoom_def
      leave_current_def Let_def initial_def defaultRoom_def set_add_def set_delete_def js_or_def)

text \<open>
  C3 fails on the code. A client sends a \<open>user\<close> event whose \<open>name\<close> is an object
  with a key \<open>toString\<close>; the handler stores it (line 130). Another client creates the
  private room \<open>books\<close> with the password \<open>secret\<close>. The first client then asks to
  join \<open>books\<close> with the password \<open>secret\<close>: the template literal of line 60
  throws on its name, the exception is caught, and nothing is sent and nothing is
  changed. The request with the right password gets no \<open>room-joined\<close> reply, and one
  with a wrong password gets no \<open>wrong-password\<close> error. Called without the handler,
  \<open>joinRoom\<close> makes the client a member and throws at line 412 before the reply.
\<close>

theorem right_password_no_reply:
  "exec False odd_name_trace (initial lobby) [] = Some odd_name_state
    \<and> map_option isPrivate (map_of (rooms odd_name_state) books) = Some True
    \<and> map_option password (map_of (rooms odd_name_state) books) = Some (JStr secret)
    \<and> on_message 0 no_env (Ev_join_room (JStr books) (JStr secret)) odd_name_state = odd_name_state
    \<and> new_sends odd_name_state
          (on_message 0 no_env (Ev_join_room (JStr books) (JStr secret)) odd_name_state) = []
    \<and> new_sends odd_name_state
          (on_message 0 no_env (Ev_join_room (JStr books) (JStr [])) odd_name_state) = []
    \<and> room_joined_replies 0 (new_sends odd_name_state
          (state_of (joinRoom 0 (JStr books) (JStr secret) odd_name_state))) = []
    \<and> users_of (state_of (joinRoom 0 (JStr books) (JStr secret) odd_name_state)) books = [bob, alice]"
proof -
  obtain room where g: "rooms_get odd_name_state (JStr books) = Some (books, room)"
    and r: "isPrivate room" "password room = JStr secret" "users room = [bob]"
    using odd_name_facts(2) by (cases "rooms odd_name_state") (auto simp add: map_eq_Cons_conv)
  have ok: "isPrivate room \<longrightarrow> password room = JStr secret"
    using r by simp
  have np: "\<not> (printable (name_c (heap odd_name_state 0)) \<and> printable (name_r room))"
    by (simp add: odd_name_facts odd_name_def)
  have m: "map_of (rooms odd_name_state) books = Some room"
    using g by (simp add: rooms_get_SomeD)
  have d: "on_message 0 no_env (Ev_join_room (JStr books) pw) odd_name_state = odd_name_state" for pw
    by (simp add: on_message_def odd_name_facts odd_name_def)
  have u: "users_of (state_of (joinRoom 0 (JStr books) (JStr secret) odd_name_state)) books
      = [bob, alice]"
    by (simp add: users_of_joinRoom [OF g ok] users_of_leave_current odd_name_facts)
      (simp add: users_of_def m r set_add_def)
  show ?thesis
    using odd_name_exec u
    by (simp add: d m r new_sends_def replies_joinRoom_Raised [OF g ok np, unfolded new_sends_def])
qed

end
